theory Spec2Isabelle
  imports Complex_Main
begin

text \<open>
  A shallow embedding of the prediction engine (\<^verbatim>\<open>PredictionEngine.ts\<close>), of the weather
  client's forecast selection and impact score (\<^verbatim>\<open>OpenWeatherAPI.ts\<close>) and of the
  request scheduler that both provider clients carry (\<^verbatim>\<open>rateLimitRequest\<close> and
  \<^verbatim>\<open>processQueue\<close>). The definitions come first, each translated from the function of
  the same name; the specification's own formulas and the sample inputs follow; the
  theorems are at the end.
\<close>

section \<open>JavaScript numbers\<close>

text \<open>
  The services are TypeScript; every \<^verbatim>\<open>number\<close> is an IEEE double. The embedding keeps
  what the engine's control flow can observe of a double: a finite value, the two
  infinities and NaN. Finite values are exact rationals, so rounding error and overflow of
  doubles are outside the model, and the two zeros are identified (a zero divisor counts as
  \<open>+0\<close>). Division by zero, arithmetic on NaN and comparisons with NaN behave as in
  ECMAScript.
\<close>

datatype number = Fin rat | PosInf | NegInf | NaN

instantiation number :: "{zero, one, plus, minus, uminus, times, inverse, abs, ord}"
begin

definition zero_number :: number where
  "0 = Fin 0"

definition one_number :: number where
  "1 = Fin 1"

fun plus_number :: "number \<Rightarrow> number \<Rightarrow> number" where
  "Fin a + Fin b = Fin (a + b)"
| "NaN + _ = NaN"
| "_ + NaN = NaN"
| "PosInf + NegInf = NaN"
| "NegInf + PosInf = NaN"
| "PosInf + _ = PosInf"
| "_ + PosInf = PosInf"
| "NegInf + _ = NegInf"
| "_ + NegInf = NegInf"

fun uminus_number :: "number \<Rightarrow> number" where
  "- Fin a = Fin (- a)"
| "- PosInf = NegInf"
| "- NegInf = PosInf"
| "- NaN = NaN"

definition minus_number :: "number \<Rightarrow> number \<Rightarrow> number" where
  "a - b = a + (- b :: number)"

fun times_number :: "number \<Rightarrow> number \<Rightarrow> number" where
  "Fin a * Fin b = Fin (a * b)"
| "NaN * _ = NaN"
| "_ * NaN = NaN"
| "PosInf * Fin b = (if b = 0 then NaN else if 0 < b then PosInf else NegInf)"
| "NegInf * Fin b = (if b = 0 then NaN else if 0 < b then NegInf else PosInf)"
| "Fin a * PosInf = (if a = 0 then NaN else if 0 < a then PosInf else NegInf)"
| "Fin a * NegInf = (if a = 0 then NaN else if 0 < a then NegInf else PosInf)"
| "PosInf * PosInf = PosInf"
| "NegInf * NegInf = PosInf"
| "PosInf * NegInf = NegInf"
| "NegInf * PosInf = NegInf"

fun divide_number :: "number \<Rightarrow> number \<Rightarrow> number" where
  "divide_number (Fin a) (Fin b) =
     (if b = 0 then (if a = 0 then NaN else if 0 < a then PosInf else NegInf)
      else Fin (a / b))"
| "divide_number NaN _ = NaN"
| "divide_number _ NaN = NaN"
| "divide_number (Fin a) PosInf = Fin 0"
| "divide_number (Fin a) NegInf = Fin 0"
| "divide_number PosInf (Fin b) = (if 0 \<le> b then PosInf else NegInf)"
| "divide_number NegInf (Fin b) = (if 0 \<le> b then NegInf else PosInf)"
| "divide_number PosInf PosInf = NaN"
| "divide_number PosInf NegInf = NaN"
| "divide_number NegInf PosInf = NaN"
| "divide_number NegInf NegInf = NaN"

definition inverse_number :: "number \<Rightarrow> number" where
  "inverse a = divide (Fin 1) (a :: number)"

fun abs_number :: "number \<Rightarrow> number" where
  "\<bar>Fin a\<bar> = Fin \<bar>a\<bar>"
| "\<bar>PosInf\<bar> = PosInf"
| "\<bar>NegInf\<bar> = PosInf"
| "\<bar>NaN\<bar> = NaN"

text \<open>The relational operators: every comparison with NaN is false.\<close>

fun less_number :: "number \<Rightarrow> number \<Rightarrow> bool" where
  "Fin a < Fin b = (a < b)"
| "NaN < _ = False"
| "_ < NaN = False"
| "_ < NegInf = False"
| "PosInf < _ = False"
| "NegInf < _ = True"
| "_ < PosInf = True"

fun less_eq_number :: "number \<Rightarrow> number \<Rightarrow> bool" where
  "Fin a \<le> Fin b = (a \<le> b)"
| "NaN \<le> _ = False"
| "_ \<le> NaN = False"
| "NegInf \<le> _ = True"
| "_ \<le> PosInf = True"
| "_ \<le> NegInf = False"
| "PosInf \<le> _ = False"

instance ..

end

instance number :: semigroup_add
proof
  fix a b c :: number
  show "a + b + c = a + (b + c)"
    by (cases a; cases b; cases c) simp_all
qed

instance number :: numeral ..

instance number :: power ..

text \<open>\<^verbatim>\<open>===\<close> on two numbers: NaN is not equal to itself.\<close>

fun strict_eq :: "number \<Rightarrow> number \<Rightarrow> bool" where
  "strict_eq NaN _ = False"
| "strict_eq _ NaN = False"
| "strict_eq a b = (a = b)"

text \<open>\<^verbatim>\<open>Math.round\<close> rounds to the nearest integer, a tie towards \<open>+\<infinity>\<close>.\<close>

fun Math_round :: "number \<Rightarrow> number" where
  "Math_round (Fin a) = Fin (of_int \<lfloor>a + 1 / 2\<rfloor>)"
| "Math_round x = x"

fun Math_max :: "number \<Rightarrow> number \<Rightarrow> number" where
  "Math_max NaN _ = NaN"
| "Math_max _ NaN = NaN"
| "Math_max a b = (if a \<le> b then b else a)"

fun Math_min :: "number \<Rightarrow> number \<Rightarrow> number" where
  "Math_min NaN _ = NaN"
| "Math_min _ NaN = NaN"
| "Math_min a b = (if a \<le> b then a else b)"

text \<open>Truthiness of a number: \<open>0\<close> and NaN are falsy.\<close>

fun truthy :: "number \<Rightarrow> bool" where
  "truthy (Fin a) = (a \<noteq> 0)"
| "truthy NaN = False"
| "truthy _ = True"

section \<open>Domain records\<close>

text \<open>
  The interfaces of \<^verbatim>\<open>types\<close>, as extensible records: each record lists the fields the
  modelled code reads, and the interface's other fields live in the record's extension.
  Field names that several interfaces share carry the interface as a prefix
  (\<^verbatim>\<open>NFLTeam.id\<close> is \<open>team_id\<close>, \<^verbatim>\<open>TeamStats.teamId\<close> is \<open>stats_teamId\<close>, and so on).
\<close>

record NFLTeam =
  team_id :: string
  team_name :: string
  team_abbreviation :: string

record NFLGame =
  game_id :: string
  week :: number
  year :: number
  awayTeamId :: string
  homeTeamId :: string
  gameDate :: string

record TeamStats =
  stats_teamId :: string
  gamesPlayed :: number
  wins :: number
  pointsFor :: number
  pointsAgainst :: number
  totalYards :: number
  totalYardsAllowed :: number
  takeaways :: number
  sacks :: number
  thirdDownPercentage :: number
  thirdDownPercentageAllowed :: number
  redZonePercentage :: number
  redZonePercentageAllowed :: number

text \<open>
  \<^verbatim>\<open>calculateInjuryImpact\<close> reads \<^verbatim>\<open>injury.position\<close>, a property the interface
  \<^verbatim>\<open>PlayerInjury\<close> does not declare: \<open>None\<close> is the value \<^verbatim>\<open>undefined\<close> of an object
  without it. The status is kept as the string it is at run time.
\<close>

record PlayerInjury =
  injury_teamId :: string
  position :: "string option"
  status :: string

record GameWeather =
  temperature :: number
  feelsLike :: number
  humidity :: number
  windSpeed :: number
  windDirection :: "string option"
  conditions :: string
  precipitation :: number
  visibility :: number
  uvIndex :: number
  weather_lastUpdated :: string

text \<open>
  An \<^verbatim>\<open>async\<close> function returns a promise. The ones modelled here never reject, so a
  promise is the value it resolves to.
\<close>

datatype 'a promise = Resolved 'a

text \<open>
  \<^verbatim>\<open>calculateWeatherImpact\<close> is declared to return a number and returns the unawaited
  promise of \<^verbatim>\<open>getWeatherImpact\<close>, so the field \<^verbatim>\<open>weatherImpact\<close> holds a number
  or a promise. Arithmetic converts a promise through its string
  \<^verbatim>\<open>"[object Promise]"\<close>, which is NaN as a number.
\<close>

datatype field_value = Num number | Prom "number promise"

fun ToNumber :: "field_value \<Rightarrow> number" where
  "ToNumber (Num n) = n"
| "ToNumber (Prom _) = NaN"

text \<open>
  \<^verbatim>\<open>(a + b) / 2\<close> on two fields: with a promise among them \<^verbatim>\<open>+\<close> concatenates
  strings, and the string is NaN once divided.
\<close>

fun half_sum :: "field_value \<Rightarrow> field_value \<Rightarrow> number" where
  "half_sum (Num a) (Num b) = (a + b) / 2"
| "half_sum _ _ = NaN"

text \<open>
  \<^verbatim>\<open>a > b\<close> on two fields: two promises compare as equal strings, a promise against
  a number as NaN.
\<close>

fun field_gt :: "field_value \<Rightarrow> field_value \<Rightarrow> bool" where
  "field_gt (Num a) (Num b) = (b < a)"
| "field_gt _ _ = False"

record PredictionMetrics =
  teamStrength :: number
  offensivePower :: number
  defensivePower :: number
  injuryImpact :: number
  weatherImpact :: field_value
  scheduleStrength :: number
  homeFieldAdvantage :: number
  restAdvantage :: number
  momentum :: number
  overall :: number

section \<open>Weather impact score\<close>

definition getWeatherImpact :: "'a GameWeather_scheme \<Rightarrow> number promise" where
  "getWeatherImpact weather =
     (let impact = 50;
          impact =
            (if 50 \<le> temperature weather \<and> temperature weather \<le> 70 then impact + 20
             else if 40 \<le> temperature weather \<and> temperature weather \<le> 80 then impact + 10
             else if temperature weather < 20 \<or> 90 < temperature weather then impact - 30
             else if temperature weather < 30 \<or> 85 < temperature weather then impact - 15
             else impact);
          impact =
            (if windSpeed weather < 10 then impact + 15
             else if windSpeed weather < 20 then impact + 5
             else if 30 < windSpeed weather then impact - 25
             else if 20 < windSpeed weather then impact - 10
             else impact);
          impact =
            (if strict_eq (precipitation weather) 0 then impact + 15
             else if precipitation weather < 0.1 then impact + 5
             else if 0.5 < precipitation weather then impact - 20
             else if 0.1 < precipitation weather then impact - 10
             else impact);
          impact =
            (if 10 \<le> visibility weather then impact + 10
             else if visibility weather < 5 then impact - 15
             else impact);
          badConditions = [''Thunderstorm'', ''Snow'', ''Sleet'', ''Hail''];
          moderateConditions = [''Rain'', ''Drizzle'', ''Mist'', ''Fog''];
          impact =
            (if conditions weather \<in> set badConditions then impact - 25
             else if conditions weather \<in> set moderateConditions then impact - 10
             else if conditions weather = ''Clear'' then impact + 10
             else impact)
      in Resolved (Math_max 0 (Math_min 100 impact)))"

section \<open>Metric calculators\<close>

definition calculateTeamStrength :: "'a TeamStats_scheme option \<Rightarrow> number" where
  "calculateTeamStrength stats =
     (case stats of
        None \<Rightarrow> 50
      | Some s \<Rightarrow>
          (let winPercentage =
                 (if 0 < gamesPlayed s then (wins s / gamesPlayed s) * 100 else 50);
               pointDifferential =
                 (if 0 < gamesPlayed s then (pointsFor s - pointsAgainst s) / gamesPlayed s
                  else 0);
               normalizedPointDiff = Math_max 0 (Math_min 100 (50 + (pointDifferential * 2)))
           in Math_round ((winPercentage * 0.7) + (normalizedPointDiff * 0.3))))"

definition calculateOffensivePower :: "'a TeamStats_scheme option \<Rightarrow> number" where
  "calculateOffensivePower stats =
     (case stats of
        None \<Rightarrow> 50
      | Some s \<Rightarrow>
          if strict_eq (gamesPlayed s) 0 then 50
          else
            (let pointsPerGame = pointsFor s / gamesPlayed s;
                 yardsPerGame = totalYards s / gamesPlayed s;
                 normalizedPoints = Math_min 100 ((pointsPerGame / 30) * 100);
                 normalizedYards = Math_min 100 ((yardsPerGame / 400) * 100);
                 normalizedThirdDown = thirdDownPercentage s;
                 normalizedRedZone = redZonePercentage s
             in Math_round
                  ((normalizedPoints * 0.4) + (normalizedYards * 0.3) +
                   (normalizedThirdDown * 0.2) + (normalizedRedZone * 0.1))))"

definition calculateDefensivePower :: "'a TeamStats_scheme option \<Rightarrow> number" where
  "calculateDefensivePower stats =
     (case stats of
        None \<Rightarrow> 50
      | Some s \<Rightarrow>
          if strict_eq (gamesPlayed s) 0 then 50
          else
            (let pointsAllowedPerGame = pointsAgainst s / gamesPlayed s;
                 yardsAllowedPerGame = totalYardsAllowed s / gamesPlayed s;
                 normalizedPoints = Math_max 0 (100 - (pointsAllowedPerGame / 30) * 100);
                 normalizedYards = Math_max 0 (100 - (yardsAllowedPerGame / 400) * 100);
                 normalizedThirdDown = 100 - thirdDownPercentageAllowed s;
                 normalizedRedZone = 100 - redZonePercentageAllowed s;
                 normalizedTakeaways = Math_min 100 ((takeaways s / gamesPlayed s) * 50);
                 normalizedSacks = Math_min 100 ((sacks s / gamesPlayed s) * 20)
             in Math_round
                  ((normalizedPoints * 0.3) + (normalizedYards * 0.25) +
                   (normalizedThirdDown * 0.2) + (normalizedRedZone * 0.15) +
                   (normalizedTakeaways * 0.05) + (normalizedSacks * 0.05))))"

text \<open>
  The loop of \<^verbatim>\<open>calculateInjuryImpact\<close>: \<open>injuryLoop\<close> carries \<open>totalImpact\<close> and
  \<open>totalWeight\<close> through the injuries, its body the two blocks of the source.
\<close>

fun injuryLoop :: "'a PlayerInjury_scheme list \<Rightarrow> number \<times> number \<Rightarrow> number \<times> number" where
  "injuryLoop [] (totalImpact, totalWeight) = (totalImpact, totalWeight)"
| "injuryLoop (injury # rest) (totalImpact, totalWeight) =
     (let weight =
            (if position injury \<in> set (map Some [''QB'', ''RB'', ''WR'', ''TE'']) then 3
             else if position injury \<in> set (map Some [''DE'', ''DT'', ''LB'', ''CB'', ''S''])
               then 2
             else 1);
          impact =
            (if status injury = ''out'' then 0
             else if status injury = ''doubtful'' then 25
             else if status injury = ''questionable'' then 50
             else if status injury = ''injured-reserve'' then 0
             else if status injury = ''pup'' then 0
             else 100)
      in injuryLoop rest (totalImpact + impact * weight, totalWeight + weight))"

definition calculateInjuryImpact :: "'a PlayerInjury_scheme list \<Rightarrow> number" where
  "calculateInjuryImpact injuries =
     (if length injuries = 0 then 100
      else
        (case injuryLoop injuries (0, 0) of
           (totalImpact, totalWeight) \<Rightarrow>
             Math_round (if 0 < totalWeight then totalImpact / totalWeight else 100)))"

definition calculateWeatherImpact :: "'a GameWeather_scheme \<Rightarrow> bool \<Rightarrow> field_value" where
  "calculateWeatherImpact weather isHomeTeam = Prom (getWeatherImpact weather)"

definition calculateScheduleStrength :: "'a TeamStats_scheme option \<Rightarrow> number" where
  "calculateScheduleStrength stats =
     (case stats of None \<Rightarrow> 50 | Some s \<Rightarrow> calculateTeamStrength (Some s))"

definition calculateRestAdvantage :: "'a TeamStats_scheme option \<Rightarrow> number" where
  "calculateRestAdvantage stats = (case stats of None \<Rightarrow> 0 | Some s \<Rightarrow> 0)"

definition calculateMomentum :: "'a TeamStats_scheme option \<Rightarrow> number" where
  "calculateMomentum stats =
     (case stats of
        None \<Rightarrow> 50
      | Some s \<Rightarrow>
          if gamesPlayed s < 3 then 50
          else
            (let winPercentage = wins s / gamesPlayed s
             in if 0.75 \<le> winPercentage then 90
                else if 0.6 \<le> winPercentage then 75
                else if 0.4 \<le> winPercentage then 50
                else if 0.25 \<le> winPercentage then 25
                else 10))"

text \<open>\<^verbatim>\<open>config.predictionModel.homeFieldAdvantage\<close>\<close>

definition config_homeFieldAdvantage :: number where
  "config_homeFieldAdvantage = 0.03"

definition calculateTeamMetrics ::
  "'a TeamStats_scheme option \<Rightarrow> 'b PlayerInjury_scheme list \<Rightarrow> 'c GameWeather_scheme option \<Rightarrow>
   bool \<Rightarrow> PredictionMetrics" where
  "calculateTeamMetrics stats injuries weather isHomeTeam =
     (let teamStrength' = calculateTeamStrength stats;
          offensivePower' = calculateOffensivePower stats;
          defensivePower' = calculateDefensivePower stats;
          injuryImpact' = calculateInjuryImpact injuries;
          weatherImpact' =
            (case weather of
               Some w \<Rightarrow> calculateWeatherImpact w isHomeTeam
             | None \<Rightarrow> Num 50);
          scheduleStrength' = calculateScheduleStrength stats;
          homeFieldAdvantage' = (if isHomeTeam then config_homeFieldAdvantage * 100 else 0);
          restAdvantage' = calculateRestAdvantage stats;
          momentum' = calculateMomentum stats;
          overall' =
            teamStrength' * 0.25 + offensivePower' * 0.20 + defensivePower' * 0.20 +
            injuryImpact' * 0.15 + ToNumber weatherImpact' * 0.10 + scheduleStrength' * 0.10
      in \<lparr> teamStrength = teamStrength',
           offensivePower = offensivePower',
           defensivePower = defensivePower',
           injuryImpact = injuryImpact',
           weatherImpact = weatherImpact',
           scheduleStrength = scheduleStrength',
           homeFieldAdvantage = homeFieldAdvantage',
           restAdvantage = restAdvantage',
           momentum = momentum',
           overall = Math_round overall' \<rparr>)"

definition calculateOverallMetrics :: "PredictionMetrics \<Rightarrow> PredictionMetrics \<Rightarrow> PredictionMetrics" where
  "calculateOverallMetrics awayMetrics homeMetrics =
     \<lparr> teamStrength = Math_round ((teamStrength awayMetrics + teamStrength homeMetrics) / 2),
       offensivePower =
         Math_round ((offensivePower awayMetrics + offensivePower homeMetrics) / 2),
       defensivePower =
         Math_round ((defensivePower awayMetrics + defensivePower homeMetrics) / 2),
       injuryImpact = Math_round ((injuryImpact awayMetrics + injuryImpact homeMetrics) / 2),
       weatherImpact =
         Num (Math_round (half_sum (weatherImpact awayMetrics) (weatherImpact homeMetrics))),
       scheduleStrength =
         Math_round ((scheduleStrength awayMetrics + scheduleStrength homeMetrics) / 2),
       homeFieldAdvantage = homeFieldAdvantage homeMetrics,
       restAdvantage = Math_round ((restAdvantage awayMetrics + restAdvantage homeMetrics) / 2),
       momentum = Math_round ((momentum awayMetrics + momentum homeMetrics) / 2),
       overall = Math_round ((overall awayMetrics + overall homeMetrics) / 2) \<rparr>"

section \<open>Win probabilities\<close>

record WinProbabilities =
  awayWinProbability :: number
  homeWinProbability :: number

definition calculateWinProbabilities ::
  "PredictionMetrics \<Rightarrow> PredictionMetrics \<Rightarrow> PredictionMetrics \<Rightarrow> WinProbabilities" where
  "calculateWinProbabilities awayMetrics homeMetrics overallMetrics =
     (let awayBase = overall awayMetrics;
          homeBase = overall homeMetrics;
          homeBase = homeBase + homeFieldAdvantage homeMetrics;
          awayBase = awayBase + restAdvantage awayMetrics;
          homeBase = homeBase + restAdvantage homeMetrics;
          awayBase = awayBase + (momentum awayMetrics - 50) * 0.1;
          homeBase = homeBase + (momentum homeMetrics - 50) * 0.1;
          total = awayBase + homeBase;
          awayWinProbability' = Math_round ((awayBase / total) * 100);
          homeWinProbability' = 100 - awayWinProbability'
      in \<lparr> awayWinProbability = awayWinProbability',
           homeWinProbability = homeWinProbability' \<rparr>)"

section \<open>Prediction engine: confidence and recommendation\<close>

datatype confidence = High | Medium | Low

datatype recommendation = Away | Home | NoPick

definition determineConfidence :: "number \<Rightarrow> number \<Rightarrow> confidence" where
  "determineConfidence awayProbability homeProbability =
     (let probabilityDiff = \<bar>awayProbability - homeProbability\<bar>
      in if 25 \<le> probabilityDiff then High
         else if 15 \<le> probabilityDiff then Medium
         else Low)"

definition determineRecommendation :: "number \<Rightarrow> number \<Rightarrow> confidence \<Rightarrow> recommendation" where
  "determineRecommendation awayProbability homeProbability conf =
     (if conf = Low then NoPick
      else if homeProbability < awayProbability then Away
      else if awayProbability < homeProbability then Home
      else NoPick)"

section \<open>Weather client: current conditions and forecast\<close>

text \<open>
  \<^verbatim>\<open>config.stadiumCoordinates\<close>, a team abbreviation with its latitude and longitude.
  The lookup \<^verbatim>\<open>config.stadiumCoordinates[teamAbbreviation]\<close> is a lookup in this table;
  the properties every object inherits (an abbreviation such as \<^verbatim>\<open>constructor\<close>) are
  left out.
\<close>

definition stadiumCoordinates :: "(string \<times> number \<times> number) list" where
  "stadiumCoordinates =
     [(''ATL'', 33.7553, - 84.4006), (''BAL'', 39.2783, - 76.6222),
      (''BUF'', 42.7737, - 78.7870), (''CAR'', 35.2253, - 80.8431),
      (''CHI'', 41.9484, - 87.6553), (''CIN'', 39.0955, - 84.5160),
      (''CLE'', 41.5061, - 81.6996), (''DAL'', 32.7478, - 97.0928),
      (''DEN'', 39.7439, - 105.0200), (''DET'', 42.3400, - 83.0456),
      (''GB'', 44.5013, - 88.0622), (''HOU'', 29.6847, - 95.4107),
      (''IND'', 39.7601, - 86.1639), (''JAX'', 30.3239, - 81.6377),
      (''KC'', 39.0997, - 94.5786), (''LAC'', 33.9533, - 118.3388),
      (''LAR'', 33.9533, - 118.3388), (''LV'', 36.0908, - 115.1807),
      (''MIA'', 25.9580, - 80.2389), (''MIN'', 44.9740, - 93.2583),
      (''NE'', 42.0909, - 71.2643), (''NO'', 29.9508, - 90.0811),
      (''NYG'', 40.8128, - 74.0741), (''NYJ'', 40.8128, - 74.0741),
      (''PHI'', 39.9010, - 75.1675), (''PIT'', 40.4468, - 79.9758),
      (''SEA'', 47.5952, - 122.3316), (''SF'', 37.4033, - 121.9694),
      (''TB'', 27.9759, - 82.5033), (''TEN'', 36.1664, - 86.7714),
      (''WAS'', 38.9076, - 77.0172)]"

text \<open>
  One entry of the provider's answer, with the paths the client reads:
  \<^verbatim>\<open>dt\<close>, \<^verbatim>\<open>main.temp\<close>, \<^verbatim>\<open>main.feels_like\<close>, \<^verbatim>\<open>main.humidity\<close>, \<^verbatim>\<open>wind.speed\<close>,
  \<^verbatim>\<open>wind.deg\<close>, \<^verbatim>\<open>weather[0]?.main\<close>, \<^verbatim>\<open>rain?.['3h']\<close> and \<^verbatim>\<open>snow?.['3h']\<close>
  (\<^verbatim>\<open>'1h'\<close> in a current-conditions answer) and \<^verbatim>\<open>visibility\<close>. \<open>None\<close> is
  \<^verbatim>\<open>undefined\<close>.
\<close>

record provider_reading =
  dt :: number
  main_temp :: number
  main_feels_like :: number
  main_humidity :: number
  wind_speed :: number
  wind_deg :: number
  weather0_main :: "string option"
  rain_amount :: "number option"
  snow_amount :: "number option"
  raw_visibility :: number

text \<open>
  What the client takes from outside: the clock (\<^verbatim>\<open>new Date().getTime()\<close> and
  \<^verbatim>\<open>new Date().toISOString()\<close>), the time value of a date string
  (\<^verbatim>\<open>new Date(s).getTime()\<close>, NaN for a string that is no date), and the provider's
  answers to \<^verbatim>\<open>GET /forecast\<close> and \<^verbatim>\<open>GET /weather\<close> for a pair of coordinates:
  \<open>Inl message\<close> is a failed call, \<open>Inr None\<close> an answer without the data the client looks
  for. The request scheduler only delays a call; its outcome passes through unchanged.
\<close>

record weather_env =
  now :: number
  nowISO :: string
  parseDate :: "string \<Rightarrow> number"
  fetchForecast :: "number \<times> number \<Rightarrow> string + provider_reading list option"
  fetchWeather :: "number \<times> number \<Rightarrow> string + provider_reading option"

text \<open>
  The time value of \<^verbatim>\<open>new Date(x)\<close> for a number \<open>x\<close>: truncated towards zero, and NaN
  beyond 8.64e15 milliseconds.
\<close>

fun TimeClip :: "number \<Rightarrow> number" where
  "TimeClip (Fin x) =
     (if 8640000000000000 < \<bar>x\<bar> then NaN
      else Fin (of_int (if 0 \<le> x then \<lfloor>x\<rfloor> else \<lceil>x\<rceil>)))"
| "TimeClip _ = NaN"

definition directions :: "string list" where
  "directions =
     [''N'', ''NNE'', ''NE'', ''ENE'', ''E'', ''ESE'', ''SE'', ''SSE'',
      ''S'', ''SSW'', ''SW'', ''WSW'', ''W'', ''WNW'', ''NW'', ''NNW'']"

text \<open>
  \<^verbatim>\<open>directions[Math.round(degrees / 22.5) % 16]\<close>: the remainder has the sign of the
  dividend, and a negative or NaN index reads \<^verbatim>\<open>undefined\<close>.
\<close>

definition getWindDirection :: "number \<Rightarrow> string option" where
  "getWindDirection degrees =
     (case Math_round (degrees / 22.5) of
        Fin r \<Rightarrow>
          (if 0 \<le> r then Some (directions ! nat (\<lfloor>r\<rfloor> mod 16))
           else if (- \<lfloor>r\<rfloor>) mod 16 = 0 then Some (directions ! 0)
           else None)
      | _ \<Rightarrow> None)"

text \<open>\<^verbatim>\<open>a || b || 0\<close> on two optional numbers.\<close>

definition first_truthy :: "number option \<Rightarrow> number option \<Rightarrow> number" where
  "first_truthy a b =
     (case a of
        Some x \<Rightarrow> if truthy x then x else (case b of Some y \<Rightarrow> if truthy y then y else 0 | None \<Rightarrow> 0)
      | None \<Rightarrow> (case b of Some y \<Rightarrow> if truthy y then y else 0 | None \<Rightarrow> 0))"

text \<open>The object literal that both client methods build from a provider entry.\<close>

definition weatherRecord :: "weather_env \<Rightarrow> 'a provider_reading_scheme \<Rightarrow> GameWeather" where
  "weatherRecord env entry =
     \<lparr> temperature = main_temp entry,
       feelsLike = main_feels_like entry,
       humidity = main_humidity entry,
       windSpeed = wind_speed entry,
       windDirection = getWindDirection (wind_deg entry),
       conditions =
         (case weather0_main entry of
            Some c \<Rightarrow> if c = [] then ''Unknown'' else c
          | None \<Rightarrow> ''Unknown''),
       precipitation = first_truthy (rain_amount entry) (snow_amount entry),
       visibility = raw_visibility entry / 1000,
       uvIndex = 0,
       weather_lastUpdated = nowISO env \<rparr>"

text \<open>
  A client method returns the number of requests it sent to the provider and the outcome
  of its promise: \<open>Inl message\<close> when it rejects, \<open>Inr None\<close> for \<^verbatim>\<open>null\<close>.
\<close>

definition getCurrentWeather :: "weather_env \<Rightarrow> string \<Rightarrow> nat \<times> (string + GameWeather option)" where
  "getCurrentWeather env teamAbbreviation =
     (case map_of stadiumCoordinates teamAbbreviation of
        None \<Rightarrow> (0, Inr None)
      | Some coordinates \<Rightarrow>
          (1, case fetchWeather env coordinates of
                Inl error \<Rightarrow> Inl error
              | Inr None \<Rightarrow> Inr None
              | Inr (Some weather) \<Rightarrow> Inr (Some (weatherRecord env weather))))"

text \<open>
  The loop of \<^verbatim>\<open>getForecast\<close> over \<^verbatim>\<open>response.data.list\<close>, carrying
  \<open>closestForecast\<close> and \<open>smallestDiff\<close>.
\<close>

fun closestLoop ::
  "number \<Rightarrow> 'a provider_reading_scheme list \<Rightarrow>
   'a provider_reading_scheme option \<times> number \<Rightarrow> 'a provider_reading_scheme option \<times> number" where
  "closestLoop gameTime [] (closestForecast, smallestDiff) = (closestForecast, smallestDiff)"
| "closestLoop gameTime (forecast # rest) (closestForecast, smallestDiff) =
     (let forecastTime = TimeClip (dt forecast * 1000);
          diff = \<bar>forecastTime - gameTime\<bar>
      in if diff < smallestDiff then closestLoop gameTime rest (Some forecast, diff)
         else closestLoop gameTime rest (closestForecast, smallestDiff))"

definition getForecast ::
  "weather_env \<Rightarrow> string \<Rightarrow> string \<Rightarrow> nat \<times> (string + GameWeather option)" where
  "getForecast env teamAbbreviation gameDate' =
     (case map_of stadiumCoordinates teamAbbreviation of
        None \<Rightarrow> (0, Inr None)
      | Some coordinates \<Rightarrow>
          (let gameDateTime = parseDate env gameDate';
               hoursUntilGame = (gameDateTime - now env) / (1000 * 60 * 60)
           in if 120 < hoursUntilGame then (0, Inr None)
              else
                (1, case fetchForecast env coordinates of
                      Inl error \<Rightarrow> Inl error
                    | Inr None \<Rightarrow> Inr None
                    | Inr (Some list) \<Rightarrow>
                        (let gameTime = gameDateTime
                         in case closestLoop gameTime list (None, PosInf) of
                              (Some closestForecast, smallestDiff) \<Rightarrow>
                                Inr (Some (weatherRecord env closestForecast))
                            | (None, smallestDiff) \<Rightarrow> Inr None))))"

section \<open>Prediction engine: one game and a batch\<close>

definition getGameWeather :: "weather_env \<Rightarrow> 'a NFLGame_scheme \<Rightarrow> string \<Rightarrow> GameWeather option" where
  "getGameWeather env game homeTeamAbbr =
     (case snd (getForecast env homeTeamAbbr (gameDate game)) of
        Inl error \<Rightarrow> None
      | Inr (Some weather) \<Rightarrow> Some weather
      | Inr None \<Rightarrow>
          (case snd (getCurrentWeather env homeTeamAbbr) of
             Inl error \<Rightarrow> None
           | Inr weather \<Rightarrow> weather))"

definition generateFactors ::
  "PredictionMetrics \<Rightarrow> PredictionMetrics \<Rightarrow> 'a GameWeather_scheme option \<Rightarrow>
   'b NFLTeam_scheme \<Rightarrow> 'c NFLTeam_scheme \<Rightarrow> string list" where
  "generateFactors awayMetrics homeMetrics weather awayTeam homeTeam =
     (let factors = [];
          factors =
            (if teamStrength homeMetrics + 10 < teamStrength awayMetrics
               then factors @
                 [team_name awayTeam @ '' has significantly stronger overall team performance'']
             else if teamStrength awayMetrics + 10 < teamStrength homeMetrics
               then factors @
                 [team_name homeTeam @ '' has significantly stronger overall team performance'']
             else factors);
          factors =
            (if offensivePower homeMetrics + 15 < offensivePower awayMetrics
               then factors @ [team_name awayTeam @ '' has superior offensive firepower'']
             else if offensivePower awayMetrics + 15 < offensivePower homeMetrics
               then factors @ [team_name homeTeam @ '' has superior offensive firepower'']
             else factors);
          factors =
            (if defensivePower homeMetrics + 15 < defensivePower awayMetrics
               then factors @ [team_name awayTeam @ '' has stronger defensive unit'']
             else if defensivePower awayMetrics + 15 < defensivePower homeMetrics
               then factors @ [team_name homeTeam @ '' has stronger defensive unit'']
             else factors);
          factors =
            (if injuryImpact awayMetrics < injuryImpact homeMetrics - 20
               then factors @ [team_name awayTeam @ '' dealing with significant injuries'']
             else if injuryImpact homeMetrics < injuryImpact awayMetrics - 20
               then factors @ [team_name homeTeam @ '' dealing with significant injuries'']
             else factors);
          factors =
            (case weather of
               None \<Rightarrow> factors
             | Some w \<Rightarrow>
                 (let factors =
                        (if conditions w = ''Rain'' \<or> conditions w = ''Snow''
                           then factors @
                             [''Weather conditions may favor '' @
                              (if field_gt (weatherImpact homeMetrics) (weatherImpact awayMetrics)
                               then team_name homeTeam else team_name awayTeam)]
                         else factors)
                  in if 20 < windSpeed w
                       then factors @ [''High winds may impact passing game'']
                     else factors));
          factors =
            (if 0 < homeFieldAdvantage homeMetrics
               then factors @ [team_name homeTeam @ '' benefits from home field advantage'']
             else factors);
          factors =
            (if momentum homeMetrics + 20 < momentum awayMetrics
               then factors @
                 [team_name awayTeam @ '' has strong momentum coming into this game'']
             else if momentum awayMetrics + 20 < momentum homeMetrics
               then factors @
                 [team_name homeTeam @ '' has strong momentum coming into this game'']
             else factors)
      in factors)"

record MetricsOfGame =
  metrics_awayTeam :: PredictionMetrics
  metrics_homeTeam :: PredictionMetrics
  metrics_overall :: PredictionMetrics

text \<open>
  \<^verbatim>\<open>GamePrediction\<close>; its fields \<^verbatim>\<open>awayWinProbability\<close> and \<^verbatim>\<open>homeWinProbability\<close>
  are those of the record above.
\<close>

record GamePrediction = WinProbabilities +
  prediction_id :: string
  gameId :: string
  prediction_week :: number
  prediction_year :: number
  prediction_awayTeamId :: string
  prediction_homeTeamId :: string
  confidence :: confidence
  recommendation :: recommendation
  metrics :: MetricsOfGame
  factors :: "string list"
  lastUpdated :: string
  modelVersion :: string

datatype error = Error string

definition engine_modelVersion :: string where
  "engine_modelVersion = ''1.0.0''"

definition predictGame ::
  "weather_env \<Rightarrow> 'g NFLGame_scheme \<Rightarrow> 's TeamStats_scheme list \<Rightarrow> 'i PlayerInjury_scheme list \<Rightarrow>
   't NFLTeam_scheme list \<Rightarrow> error + GamePrediction" where
  "predictGame env game teamStats injuries teams =
     (case (find (\<lambda>t. team_id t = awayTeamId game) teams,
            find (\<lambda>t. team_id t = homeTeamId game) teams) of
        (Some awayTeam, Some homeTeam) \<Rightarrow>
          (let awayStats = find (\<lambda>s. stats_teamId s = awayTeamId game) teamStats;
               homeStats = find (\<lambda>s. stats_teamId s = homeTeamId game) teamStats;
               awayInjuries = filter (\<lambda>i. injury_teamId i = awayTeamId game) injuries;
               homeInjuries = filter (\<lambda>i. injury_teamId i = homeTeamId game) injuries;
               weather = getGameWeather env game (team_abbreviation homeTeam);
               awayMetrics = calculateTeamMetrics awayStats awayInjuries weather False;
               homeMetrics = calculateTeamMetrics homeStats homeInjuries weather True;
               overallMetrics = calculateOverallMetrics awayMetrics homeMetrics;
               probabilities = calculateWinProbabilities awayMetrics homeMetrics overallMetrics;
               confidence' =
                 determineConfidence (awayWinProbability probabilities)
                   (homeWinProbability probabilities);
               recommendation' =
                 determineRecommendation (awayWinProbability probabilities)
                   (homeWinProbability probabilities) confidence';
               factors' = generateFactors awayMetrics homeMetrics weather awayTeam homeTeam
           in Inr
                \<lparr> awayWinProbability = awayWinProbability probabilities,
                  homeWinProbability = homeWinProbability probabilities,
                  prediction_id = ''pred_'' @ game_id game,
                  gameId = game_id game,
                  prediction_week = week game,
                  prediction_year = year game,
                  prediction_awayTeamId = awayTeamId game,
                  prediction_homeTeamId = homeTeamId game,
                  confidence = confidence',
                  recommendation = recommendation',
                  metrics =
                    \<lparr> metrics_awayTeam = awayMetrics,
                      metrics_homeTeam = homeMetrics,
                      metrics_overall = overallMetrics \<rparr>,
                  factors = factors',
                  lastUpdated = nowISO env,
                  modelVersion = engine_modelVersion \<rparr>)
      | _ \<Rightarrow> Inl (Error (''Team not found for game '' @ game_id game)))"

text \<open>
  The log lines of \<^verbatim>\<open>generatePredictions\<close>: \<^verbatim>\<open>logPrediction\<close> with its seven
  arguments, and \<^verbatim>\<open>logger.error\<close> with its message and the message of the error caught.
\<close>

datatype log_entry =
    PredictionLogged string string string number number confidence string
  | ErrorLogged string string

fun predictionsLoop ::
  "weather_env \<Rightarrow> 'g NFLGame_scheme list \<Rightarrow> 's TeamStats_scheme list \<Rightarrow>
   'i PlayerInjury_scheme list \<Rightarrow> 't NFLTeam_scheme list \<Rightarrow>
   GamePrediction list \<times> log_entry list \<Rightarrow> GamePrediction list \<times> log_entry list" where
  "predictionsLoop env [] teamStats injuries teams (predictions, logged) = (predictions, logged)"
| "predictionsLoop env (game # rest) teamStats injuries teams (predictions, logged) =
     (case predictGame env game teamStats injuries teams of
        Inr prediction \<Rightarrow>
          predictionsLoop env rest teamStats injuries teams
            (predictions @ [prediction],
             logged @ [PredictionLogged (game_id game) (awayTeamId game) (homeTeamId game)
                      (awayWinProbability prediction) (homeWinProbability prediction)
                      (confidence prediction) engine_modelVersion])
      | Inl (Error message) \<Rightarrow>
          predictionsLoop env rest teamStats injuries teams
            (predictions,
             logged @ [ErrorLogged (''Failed to generate prediction for game '' @ game_id game)
                      message]))"

definition generatePredictions ::
  "weather_env \<Rightarrow> 'g NFLGame_scheme list \<Rightarrow> 's TeamStats_scheme list \<Rightarrow>
   'i PlayerInjury_scheme list \<Rightarrow> 't NFLTeam_scheme list \<Rightarrow>
   GamePrediction list \<times> log_entry list" where
  "generatePredictions env games teamStats injuries teams =
     predictionsLoop env games teamStats injuries teams ([], [])"

section \<open>Request scheduler\<close>

text \<open>
  \<^verbatim>\<open>rateLimitRequest\<close> and \<^verbatim>\<open>processQueue\<close> are the same in \<^verbatim>\<open>OpenWeatherAPI\<close>
  and \<^verbatim>\<open>MySportsFeedsAPI\<close> up to two constants: the quota
  (\<^verbatim>\<open>config.openWeather.rateLimit\<close>, \<^verbatim>\<open>config.mySportsFeeds.rateLimit\<close>) and the
  delay after a request.
\<close>

datatype provider = OpenWeather | MySportsFeeds

fun rateLimit :: "provider \<Rightarrow> int" where
  "rateLimit OpenWeather = 60"
| "rateLimit MySportsFeeds = 100"

fun requestDelay :: "provider \<Rightarrow> int" where
  "requestDelay OpenWeather = 200"
| "requestDelay MySportsFeeds = 100"

text \<open>
  The code runs on one event loop. A call of \<^verbatim>\<open>processQueue\<close> runs until its next
  \<^verbatim>\<open>await\<close> and is suspended there: at the rate-limit timer (with the time the timer
  is due), at the request it started, or at the delay after a request (with the time that
  timer is due). Between two suspensions nothing else runs, and the clock readings of one
  such piece (\<^verbatim>\<open>now\<close>, \<^verbatim>\<open>lastRequestTime\<close> and the time a timer is set) are taken to
  be one instant \<open>t\<close>.
\<close>

datatype 'u suspended = AwaitRateLimit int | AwaitRequest 'u | AwaitDelay int

text \<open>
  The fields of the class, the suspended calls of \<^verbatim>\<open>processQueue\<close>, the time of the
  latest event, and a history the code does not read: the units submitted, the units
  started (each with its start time and the value of \<open>requestCount\<close> after its increment),
  and the times at which a rate window began, the newest first. Times are milliseconds as
  \<^verbatim>\<open>Date.now()\<close> gives them; units are the queued closures, of any type \<open>'u\<close>.
\<close>

record 'u scheduler =
  rateLimitQueue :: "'u list"
  isProcessingQueue :: bool
  lastRequestTime :: int
  requestCount :: int
  resetTime :: int
  drains :: "'u suspended list"
  clock :: int
  submitted :: "'u list"
  started :: "('u \<times> int \<times> int) list"
  windows :: "int list"

definition new_scheduler :: "int \<Rightarrow> 'u scheduler" where
  "new_scheduler t0 =
     \<lparr> rateLimitQueue = [], isProcessingQueue = False, lastRequestTime = 0,
       requestCount = 0, resetTime = t0 + 60000, drains = [], clock = t0,
       submitted = [], started = [], windows = [t0] \<rparr>"

text \<open>
  A piece of \<^verbatim>\<open>processQueue\<close> run at time \<open>t\<close> yields the new state and where the call
  is suspended next; \<open>None\<close> when the call returns.

  \<open>startRequest\<close> is the end of the loop body: \<^verbatim>\<open>shift\<close>, and for a request the
  increment, \<^verbatim>\<open>lastRequestTime\<close> and the call \<^verbatim>\<open>request()\<close>. On an empty queue
  \<^verbatim>\<open>shift\<close> gives \<^verbatim>\<open>undefined\<close>, the loop condition fails and the call returns.
\<close>

definition startRequest ::
  "provider \<Rightarrow> int \<Rightarrow> 'u scheduler \<Rightarrow> 'u scheduler \<times> 'u suspended option" where
  "startRequest p t s =
     (case rateLimitQueue s of
        [] \<Rightarrow> (s\<lparr> isProcessingQueue := False \<rparr>, None)
      | request # rest \<Rightarrow>
          (s\<lparr> rateLimitQueue := rest,
              requestCount := requestCount s + 1,
              lastRequestTime := t,
              started := started s @ [(request, t, requestCount s + 1)] \<rparr>,
           Some (AwaitRequest request)))"

text \<open>
  \<open>loopTop\<close> is the loop from its condition: the window reset when \<open>now\<close> has reached
  \<open>resetTime\<close>, then the quota check, which either sets the rate-limit timer for
  \<open>resetTime - now\<close> milliseconds or goes on to the request.
\<close>

definition loopTop ::
  "provider \<Rightarrow> int \<Rightarrow> 'u scheduler \<Rightarrow> 'u scheduler \<times> 'u suspended option" where
  "loopTop p t s =
     (if rateLimitQueue s = [] then (s\<lparr> isProcessingQueue := False \<rparr>, None)
      else
        (let now = t;
             s = (if resetTime s \<le> now
                  then s\<lparr> requestCount := 0, resetTime := now + 60000,
                          windows := now # windows s \<rparr>
                  else s)
         in if rateLimit p \<le> requestCount s
            then (let waitTime = resetTime s - now in (s, Some (AwaitRateLimit (t + waitTime))))
            else startRequest p t s))"

text \<open>After the rate-limit timer: the counter and the window are reset, then the request.\<close>

definition afterRateLimit ::
  "provider \<Rightarrow> int \<Rightarrow> 'u scheduler \<Rightarrow> 'u scheduler \<times> 'u suspended option" where
  "afterRateLimit p t s =
     startRequest p t
       (s\<lparr> requestCount := 0, resetTime := t + 60000, windows := t # windows s \<rparr>)"

definition processQueue :: "provider \<Rightarrow> int \<Rightarrow> 'u scheduler \<Rightarrow> 'u scheduler" where
  "processQueue p t s =
     (if isProcessingQueue s \<or> rateLimitQueue s = [] then s
      else
        (case loopTop p t (s\<lparr> isProcessingQueue := True \<rparr>) of
           (s', None) \<Rightarrow> s'
         | (s', Some a) \<Rightarrow> s'\<lparr> drains := drains s' @ [a] \<rparr>))"

definition rateLimitRequest :: "provider \<Rightarrow> 'u \<Rightarrow> int \<Rightarrow> 'u scheduler \<Rightarrow> 'u scheduler" where
  "rateLimitRequest p requestFn t s =
     processQueue p t
       (s\<lparr> rateLimitQueue := rateLimitQueue s @ [requestFn],
           submitted := submitted s @ [requestFn] \<rparr>)"

text \<open>The suspended call number \<open>k\<close> goes on at time \<open>t\<close>.\<close>

definition resume :: "provider \<Rightarrow> nat \<Rightarrow> int \<Rightarrow> 'u scheduler \<Rightarrow> 'u scheduler" where
  "resume p k t s =
     (case (case drains s ! k of
              AwaitRateLimit due \<Rightarrow> afterRateLimit p t s
            | AwaitRequest request \<Rightarrow> (s, Some (AwaitDelay (t + requestDelay p)))
            | AwaitDelay due \<Rightarrow> loopTop p t s) of
        (s', None) \<Rightarrow> s'\<lparr> drains := take k (drains s') @ drop (Suc k) (drains s') \<rparr>
      | (s', Some a) \<Rightarrow> s'\<lparr> drains := (drains s')[k := a] \<rparr>)"

text \<open>
  The events of a scheduler: a caller submits a unit at a time, or a suspended call goes
  on at a time. An event is possible when the clock has not run backwards, the call exists,
  and a timer is not ahead of its due time; a request may take any time, and events may
  come in any order. \<open>step\<close> gives \<open>None\<close> for an event that is not possible, \<open>run\<close> for a
  sequence with such an event.
\<close>

datatype 'u event = Submit 'u int | Resume nat int

fun step :: "provider \<Rightarrow> 'u event \<Rightarrow> 'u scheduler \<Rightarrow> 'u scheduler option" where
  "step p (Submit requestFn t) s =
     (if clock s \<le> t then Some (rateLimitRequest p requestFn t (s\<lparr> clock := t \<rparr>)) else None)"
| "step p (Resume k t) s =
     (if clock s \<le> t \<and> k < length (drains s) \<and>
         (case drains s ! k of
            AwaitRateLimit due \<Rightarrow> due \<le> t
          | AwaitRequest request \<Rightarrow> True
          | AwaitDelay due \<Rightarrow> due \<le> t)
      then Some (resume p k t (s\<lparr> clock := t \<rparr>))
      else None)"

fun run :: "provider \<Rightarrow> 'u event list \<Rightarrow> 'u scheduler \<Rightarrow> 'u scheduler option" where
  "run p [] s = Some s"
| "run p (e # es) s = (case step p e s of None \<Rightarrow> None | Some s' \<Rightarrow> run p es s')"

section \<open>The specification's formulas\<close>

text \<open>
  The definitions of this section follow the words of the specification, not the code;
  the theorems below compare them with the functions above.
\<close>

text \<open>
  Injury impact: weight 3 for offensive skill positions, 2 for defensive positions, 1
  otherwise; severity 0 for out, injured-reserve and physically-unable-to-perform, 25 for
  doubtful, 50 for questionable, 100 for anything else; the score is the weighted average.
\<close>

definition spec_weight :: "'a PlayerInjury_scheme \<Rightarrow> rat" where
  "spec_weight i =
     (if position i \<in> {Some ''QB'', Some ''RB'', Some ''WR'', Some ''TE''} then 3
      else if position i \<in> {Some ''DE'', Some ''DT'', Some ''LB'', Some ''CB'', Some ''S''}
        then 2
      else 1)"

definition spec_impact :: "'a PlayerInjury_scheme \<Rightarrow> rat" where
  "spec_impact i =
     (if status i \<in> {''out'', ''injured-reserve'', ''pup''} then 0
      else if status i = ''doubtful'' then 25
      else if status i = ''questionable'' then 50
      else 100)"

definition spec_weightedAverage :: "'a PlayerInjury_scheme list \<Rightarrow> rat" where
  "spec_weightedAverage injuries =
     (\<Sum>i\<leftarrow>injuries. spec_impact i * spec_weight i) / (\<Sum>i\<leftarrow>injuries. spec_weight i)"

text \<open>
  Weather impact: a base of 50 and one additive bonus or penalty for each of temperature,
  wind speed, precipitation, visibility and the condition label.
\<close>

definition temperatureBonus :: "number \<Rightarrow> rat" where
  "temperatureBonus t =
     (if 50 \<le> t \<and> t \<le> 70 then 20
      else if 40 \<le> t \<and> t \<le> 80 then 10
      else if t < 20 \<or> 90 < t then - 30
      else if t < 30 \<or> 85 < t then - 15
      else 0)"

definition windBonus :: "number \<Rightarrow> rat" where
  "windBonus w =
     (if w < 10 then 15
      else if w < 20 then 5
      else if 30 < w then - 25
      else if 20 < w then - 10
      else 0)"

definition precipitationBonus :: "number \<Rightarrow> rat" where
  "precipitationBonus p =
     (if strict_eq p 0 then 15
      else if p < 0.1 then 5
      else if 0.5 < p then - 20
      else if 0.1 < p then - 10
      else 0)"

definition visibilityBonus :: "number \<Rightarrow> rat" where
  "visibilityBonus v = (if 10 \<le> v then 10 else if v < 5 then - 15 else 0)"

definition conditionsBonus :: "string \<Rightarrow> rat" where
  "conditionsBonus c =
     (if c \<in> {''Thunderstorm'', ''Snow'', ''Sleet'', ''Hail''} then - 25
      else if c \<in> {''Rain'', ''Drizzle'', ''Mist'', ''Fog''} then - 10
      else if c = ''Clear'' then 10
      else 0)"

text \<open>
  Win probabilities: the adjusted score of a team is its overall score plus the home-field
  bonus (home only), plus its rest advantage, plus \<open>(momentum - 50) * 0.1\<close>.
\<close>

definition awayAdjusted :: "PredictionMetrics \<Rightarrow> number" where
  "awayAdjusted m = overall m + restAdvantage m + (momentum m - 50) * 0.1"

definition homeAdjusted :: "PredictionMetrics \<Rightarrow> number" where
  "homeAdjusted m = overall m + homeFieldAdvantage m + restAdvantage m + (momentum m - 50) * 0.1"

text \<open>A number that is neither NaN nor an infinity.\<close>

fun isFinite :: "number \<Rightarrow> bool" where
  "isFinite (Fin _) = True"
| "isFinite _ = False"

text \<open>
  Forecast selection: the absolute difference of an entry's timestamp to kickoff, and the
  hours from now to kickoff.
\<close>

definition timeDiff :: "number \<Rightarrow> 'a provider_reading_scheme \<Rightarrow> number" where
  "timeDiff kickoff entry = \<bar>TimeClip (dt entry * 1000) - kickoff\<bar>"

definition hoursUntilGame :: "weather_env \<Rightarrow> string \<Rightarrow> number" where
  "hoursUntilGame env d = (parseDate env d - now env) / (1000 * 60 * 60)"

text \<open>
  A batch: both team records of a game are in the fetched team set; and the line logged for
  a game, by its outcome.
\<close>

definition teamsResolved :: "'t NFLTeam_scheme list \<Rightarrow> 'g NFLGame_scheme \<Rightarrow> bool" where
  "teamsResolved teams game =
     ((\<exists>t\<in>set teams. team_id t = awayTeamId game) \<and>
      (\<exists>t\<in>set teams. team_id t = homeTeamId game))"

definition logLine ::
  "weather_env \<Rightarrow> 's TeamStats_scheme list \<Rightarrow> 'i PlayerInjury_scheme list \<Rightarrow>
   't NFLTeam_scheme list \<Rightarrow> 'g NFLGame_scheme \<Rightarrow> log_entry" where
  "logLine env teamStats injuries teams game =
     (case predictGame env game teamStats injuries teams of
        Inr prediction \<Rightarrow>
          PredictionLogged (game_id game) (awayTeamId game) (homeTeamId game)
            (awayWinProbability prediction) (homeWinProbability prediction)
            (confidence prediction) engine_modelVersion
      | Inl (Error message) \<Rightarrow>
          ErrorLogged (''Failed to generate prediction for game '' @ game_id game) message)"

text \<open>
  Scheduler. A rate window begins at each time in \<open>windows\<close> and lasts 60 seconds;
  \<open>startsInWindow b\<close> counts the units that began execution in the window that begins at
  \<open>b\<close>. \<open>spaced\<close> says that the windows, newest first, begin at least 60 seconds apart.
  \<open>advancedWindowEnd\<close> is the end of a window ``advanced by the window length''.
\<close>

definition advancedWindowEnd :: "int \<Rightarrow> int" where
  "advancedWindowEnd windowEnd = windowEnd + 60000"

definition inWindow :: "int \<Rightarrow> 'u \<times> int \<times> int \<Rightarrow> bool" where
  "inWindow b x = (case x of (u, t, n) \<Rightarrow> b \<le> t \<and> t < b + 60000)"

definition startsInWindow :: "int \<Rightarrow> 'u scheduler \<Rightarrow> int" where
  "startsInWindow b s = int (length (filter (inWindow b) (started s)))"

definition startTimes :: "'u scheduler \<Rightarrow> int list" where
  "startTimes s = map (\<lambda>x. fst (snd x)) (started s)"

definition countsAtStart :: "'u scheduler \<Rightarrow> int list" where
  "countsAtStart s = map (\<lambda>x. snd (snd x)) (started s)"

definition startedUnits :: "'u scheduler \<Rightarrow> 'u list" where
  "startedUnits s = map fst (started s)"

fun spaced :: "int list \<Rightarrow> bool" where
  "spaced (w # w' # ws) = (w' + 60000 \<le> w \<and> spaced (w' # ws))"
| "spaced _ = True"

definition window_inv :: "provider \<Rightarrow> 'u scheduler \<Rightarrow> bool" where
  "window_inv p s =
     (windows s \<noteq> [] \<and> resetTime s = hd (windows s) + 60000 \<and> spaced (windows s) \<and>
      hd (windows s) \<le> clock s \<and>
      0 \<le> requestCount s \<and> requestCount s \<le> rateLimit p \<and>
      requestCount s = startsInWindow (hd (windows s)) s \<and>
      (\<forall>t\<in>set (startTimes s). t \<le> clock s \<and> t < resetTime s) \<and>
      (\<forall>n\<in>set (countsAtStart s). 1 \<le> n \<and> n \<le> rateLimit p) \<and>
      (\<forall>b\<in>set (windows s). startsInWindow b s \<le> rateLimit p) \<and>
      startedUnits s @ rateLimitQueue s = submitted s \<and>
      sorted (startTimes s))"

definition drain_inv :: "'u scheduler \<Rightarrow> bool" where
  "drain_inv s =
     (length (drains s) \<le> 1 \<and> (isProcessingQueue s \<longleftrightarrow> drains s \<noteq> []) \<and>
      (\<forall>a\<in>set (drains s). case a of AwaitRateLimit due \<Rightarrow> resetTime s \<le> due | _ \<Rightarrow> True))"

text \<open>What a piece of the loop does to the flag, the suspended calls and the timer.\<close>

definition piece_ok :: "'u scheduler \<Rightarrow> 'u scheduler \<times> 'u suspended option \<Rightarrow> bool" where
  "piece_ok s r =
     (drains (fst r) = drains s \<and>
      (case snd r of
         None \<Rightarrow> \<not> isProcessingQueue (fst r)
       | Some a \<Rightarrow>
           isProcessingQueue (fst r) = isProcessingQueue s \<and>
           (case a of AwaitRateLimit due \<Rightarrow> resetTime (fst r) \<le> due | _ \<Rightarrow> True)))"

section \<open>Sample inputs\<close>

definition questionable_QB_and_healthy_K :: "PlayerInjury list" where
  "questionable_QB_and_healthy_K =
     [\<lparr> injury_teamId = ''1'', position = Some ''QB'', status = ''questionable'' \<rparr>,
      \<lparr> injury_teamId = ''1'', position = Some ''K'', status = ''healthy'' \<rparr>]"

definition out_QB :: PlayerInjury where
  "out_QB = \<lparr> injury_teamId = ''1'', position = Some ''QB'', status = ''out'' \<rparr>"

definition clear_day :: GameWeather where
  "clear_day =
     \<lparr> temperature = 60, feelsLike = 60, humidity = 40, windSpeed = 5,
       windDirection = Some ''N'', conditions = ''Clear'', precipitation = 0,
       visibility = 10, uvIndex = 0, weather_lastUpdated = ''2024-09-08T17:00:00.000Z'' \<rparr>"

definition blizzard :: GameWeather where
  "blizzard =
     \<lparr> temperature = - 40, feelsLike = - 60, humidity = 90, windSpeed = 100,
       windDirection = Some ''N'', conditions = ''Snow'', precipitation = 2,
       visibility = 1, uvIndex = 0, weather_lastUpdated = ''2024-12-22T18:00:00.000Z'' \<rparr>"

definition winless_preseason :: TeamStats where
  "winless_preseason =
     \<lparr> stats_teamId = ''7'', gamesPlayed = 0, wins = 0, pointsFor = 0, pointsAgainst = 0,
       totalYards = 0, totalYardsAllowed = 0, takeaways = 0, sacks = 0,
       thirdDownPercentage = 0, thirdDownPercentageAllowed = 0, redZonePercentage = 0,
       redZonePercentageAllowed = 0 \<rparr>"

text \<open>
  Two metrics records within the documented ranges whose adjusted scores cancel:
  away \<open>2 + 0 + (10 - 50) * 0.1 = -2\<close>, home \<open>3 + 3 + 0 + (10 - 50) * 0.1 = 2\<close>.
\<close>

definition cancelling_away :: PredictionMetrics where
  "cancelling_away =
     \<lparr> teamStrength = 0, offensivePower = 0, defensivePower = 0, injuryImpact = 0,
       weatherImpact = Num 20, scheduleStrength = 0, homeFieldAdvantage = 0,
       restAdvantage = 0, momentum = 10, overall = 2 \<rparr>"

definition cancelling_home :: PredictionMetrics where
  "cancelling_home =
     \<lparr> teamStrength = 0, offensivePower = 0, defensivePower = 0, injuryImpact = 0,
       weatherImpact = Num 30, scheduleStrength = 0, homeFieldAdvantage = 3,
       restAdvantage = 0, momentum = 10, overall = 3 \<rparr>"

text \<open>
  A forecast answer in three-hour steps around a kickoff at \<open>1726000000\<close> seconds: the
  second and the third entry are both one hour away from it.
\<close>

definition forecast_at :: "number \<Rightarrow> number \<Rightarrow> provider_reading" where
  "forecast_at seconds temp =
     \<lparr> dt = seconds, main_temp = temp, main_feels_like = temp, main_humidity = 50,
       wind_speed = 8, wind_deg = 90, weather0_main = Some ''Clouds'',
       rain_amount = None, snow_amount = None, raw_visibility = 10000 \<rparr>"

definition sample_forecasts :: "provider_reading list" where
  "sample_forecasts =
     [forecast_at 1725990000 61, forecast_at 1725996400 62,
      forecast_at 1726003600 63, forecast_at 1726010000 64]"

definition kickoff :: string where
  "kickoff = ''2024-09-10T20:26:40.000Z''"

definition sample_env :: weather_env where
  "sample_env =
     \<lparr> now = 1725900000000,
       nowISO = ''2024-09-09T16:40:00.000Z'',
       parseDate = (\<lambda>s. if s = kickoff then 1726000000000 else NaN),
       fetchForecast = (\<lambda>coordinates. Inr (Some sample_forecasts)),
       fetchWeather = (\<lambda>coordinates. Inr None) \<rparr>"

definition early_env :: weather_env where
  "early_env = sample_env\<lparr> now := 1725000000000 \<rparr>"

definition sample_teams :: "NFLTeam list" where
  "sample_teams =
     [\<lparr> team_id = ''1'', team_name = ''Packers'', team_abbreviation = ''GB'' \<rparr>,
      \<lparr> team_id = ''2'', team_name = ''Bears'', team_abbreviation = ''CHI'' \<rparr>]"

definition game_of :: "string \<Rightarrow> string \<Rightarrow> string \<Rightarrow> NFLGame" where
  "game_of i away home =
     \<lparr> game_id = i, week = 1, year = 2024, awayTeamId = away, homeTeamId = home,
       gameDate = kickoff \<rparr>"

definition sample_games :: "NFLGame list" where
  "sample_games = [game_of ''g1'' ''2'' ''1'', game_of ''g2'' ''9'' ''1'', game_of ''g3'' ''1'' ''2'']"

text \<open>
  Scheduler runs. \<open>sample_run\<close>: three units in one window, the second and third submitted
  while the loop is active, and a fourth in the next window. \<open>burst\<close>: 61 units submitted at
  once to the weather scheduler, each request answered at once, so that the 61st meets a
  used-up quota; \<open>burst_then_timer\<close> lets the rate-limit timer fire when it is due.
  \<open>late_submission\<close>: one unit submitted 70 seconds after the construction, 10 seconds
  after the end of the first window. \<open>slow_request\<close>: one unit whose request is answered
  after 61 seconds, with nothing else queued.
\<close>

definition sample_run :: "string event list" where
  "sample_run =
     [Submit ''teams'' 10, Submit ''games'' 20, Resume 0 500, Resume 0 600,
      Submit ''stats'' 650, Resume 0 900, Resume 0 1000, Resume 0 1300, Resume 0 1400,
      Submit ''late'' 70000]"

definition sample_final :: "string scheduler" where
  "sample_final =
     \<lparr> rateLimitQueue = [], isProcessingQueue = True, lastRequestTime = 70000,
       requestCount = 1, resetTime = 130000, drains = [AwaitRequest ''late''],
       clock = 70000, submitted = [''teams'', ''games'', ''stats'', ''late''],
       started =
         [(''teams'', 10, 1), (''games'', 600, 2), (''stats'', 1000, 3), (''late'', 70000, 1)],
       windows = [70000, 0] \<rparr>"

definition burst :: "nat event list" where
  "burst =
     map (\<lambda>i. Submit i 0) [0..<61] @
     concat (map (\<lambda>k. [Resume 0 (200 * int k), Resume 0 (200 * int k + 200)]) [0..<60])"

definition burst_then_timer :: "nat event list" where
  "burst_then_timer = burst @ [Resume 0 60000]"

definition late_submission :: "string event list" where
  "late_submission = [Submit ''late'' 70000]"

definition slow_request :: "string event list" where
  "slow_request = [Submit ''teams'' 10, Resume 0 61000, Resume 0 61200]"

section \<open>Facts about numbers\<close>

lemma numeral_number [simp]: "(numeral k :: number) = Fin (numeral k)"
proof (induction k)
  case One
  show ?case by (simp only: numeral.simps one_number_def)
next
  case (Bit0 k)
  then show ?case by (simp only: numeral.simps plus_number.simps)
next
  case (Bit1 k)
  then show ?case by (simp only: numeral.simps plus_number.simps one_number_def)
qed

lemma Fin_power [simp]: "Fin a ^ n = Fin (a ^ n)"
  by (induction n) (simp_all add: one_number_def)

lemma Fin_minus_Fin [simp]: "Fin a - Fin b = Fin (a - b)"
  by (simp add: minus_number_def)

lemma zero_number_Fin [simp]: "(0 :: number) = Fin 0"
  by (simp add: zero_number_def)

lemma one_number_Fin [simp]: "(1 :: number) = Fin 1"
  by (simp add: one_number_def)

text \<open>Floors of rational literals, for evaluating \<open>Math_round\<close> on concrete inputs.\<close>

lemma floor_rat_divide_numeral [simp]:
  "\<lfloor>numeral a / numeral b :: rat\<rfloor> = numeral a div numeral b"
  by (metis floor_divide_of_int_eq of_int_numeral)

lemma floor_rat_one_divide_numeral [simp]:
  "\<lfloor>1 / numeral b :: rat\<rfloor> = 1 div numeral b"
  by (metis floor_divide_of_int_eq of_int_1 of_int_numeral)

lemma floor_rat_minus_divide_numeral [simp]:
  "\<lfloor>- (numeral a / numeral b) :: rat\<rfloor> = - numeral a div numeral b"
  by (metis divide_minus_left floor_divide_of_int_eq of_int_neg_numeral of_int_numeral)

lemma plus_NaN [simp]: "a + NaN = NaN" "NaN + a = NaN"
  by (cases a; simp)+

lemma Fin_minus [simp]:
  "Fin a - NaN = NaN" "Fin a - PosInf = NegInf" "Fin a - NegInf = PosInf"
  "NaN - b = NaN"
  by (simp_all add: minus_number_def)

section \<open>Confidence thresholds\<close>

text \<open>
  C5. The confidence tier is decided by the absolute gap of the two probabilities with
  exact thresholds: a gap of at least 25 is high (25 itself included), a gap of at least 15
  and below 25 is medium (15 itself included), and a gap of 14 or less is low.
\<close>

theorem determineConfidence_thresholds:
  "(25 \<le> \<bar>a - h\<bar> \<longrightarrow> determineConfidence a h = High) \<and>
   (15 \<le> \<bar>a - h\<bar> \<and> \<bar>a - h\<bar> < 25 \<longrightarrow> determineConfidence a h = Medium) \<and>
   (\<bar>a - h\<bar> \<le> 14 \<longrightarrow> determineConfidence a h = Low)"
proof (cases "\<bar>a - h\<bar>")
  case (Fin g)
  then show ?thesis by (simp add: determineConfidence_def)
next
  case PosInf
  then show ?thesis by (simp add: determineConfidence_def)
next
  case NegInf
  then show ?thesis by (simp add: determineConfidence_def)
next
  case NaN
  then show ?thesis by (simp add: determineConfidence_def)
qed

theorem determineConfidence_thresholds_witness:
  "(25 :: number) \<le> \<bar>60 - 35\<bar> \<and> determineConfidence 60 35 = High \<and>
   (15 :: number) \<le> \<bar>35 - 50\<bar> \<and> \<bar>35 - 50\<bar> < (25 :: number) \<and>
     determineConfidence 35 50 = Medium \<and>
   \<bar>57 - 43\<bar> \<le> (14 :: number) \<and> determineConfidence 57 43 = Low"
  using determineConfidence_thresholds [of 60 35]
    determineConfidence_thresholds [of 35 50]
    determineConfidence_thresholds [of 57 43]
  by simp

section \<open>Recommendation against confidence\<close>

text \<open>
  C10. For integer probabilities that sum to 100 the recommendation is \<open>none\<close> exactly
  when the confidence is low. With medium or high confidence the two probabilities differ
  and the recommendation is the side with the strictly higher probability, so the tie
  branch is not reached.
\<close>

theorem recommendation_none_iff_low:
  fixes a h :: int
  assumes "a + h = 100"
  shows "(determineRecommendation (Fin (of_int a)) (Fin (of_int h))
            (determineConfidence (Fin (of_int a)) (Fin (of_int h))) = NoPick
          \<longleftrightarrow> determineConfidence (Fin (of_int a)) (Fin (of_int h)) = Low) \<and>
         (determineConfidence (Fin (of_int a)) (Fin (of_int h)) \<noteq> Low \<longrightarrow>
            a \<noteq> h \<and>
            determineRecommendation (Fin (of_int a)) (Fin (of_int h))
              (determineConfidence (Fin (of_int a)) (Fin (of_int h)))
              = (if h < a then Away else Home))"
proof -
  have gap: "\<bar>Fin (of_int a) - Fin (of_int h)\<bar> = Fin (of_int \<bar>a - h\<bar>)"
    by simp
  have small: "a = h \<Longrightarrow> \<not> (15 :: rat) \<le> of_int \<bar>a - h\<bar>"
    by simp
  show ?thesis
    unfolding determineRecommendation_def determineConfidence_def Let_def gap
    using small by (auto simp: of_int_less_iff)
qed

theorem recommendation_none_iff_low_witness:
  "(70 :: int) + 30 = 100 \<and>
   determineConfidence (Fin (of_int 70)) (Fin (of_int 30)) = High \<and>
   determineRecommendation (Fin (of_int 70)) (Fin (of_int 30)) High = Away \<and>
   (52 :: int) + 48 = 100 \<and>
   determineConfidence (Fin (of_int 52)) (Fin (of_int 48)) = Low \<and>
   determineRecommendation (Fin (of_int 52)) (Fin (of_int 48)) Low = NoPick"
  using recommendation_none_iff_low [of 70 30] recommendation_none_iff_low [of 52 48]
  by (simp add: determineConfidence_def)

section \<open>Zero games played\<close>

text \<open>
  C9. For a stats snapshot with \<open>gamesPlayed = 0\<close> the offensive and the defensive power
  are both exactly 50, whatever the other fields hold: the guard returns before any
  quotient by \<open>gamesPlayed\<close> is formed.
\<close>

theorem zero_games_power_is_50:
  assumes "gamesPlayed s = Fin 0"
  shows "calculateOffensivePower (Some s) = Fin 50 \<and> calculateDefensivePower (Some s) = Fin 50"
  using assms by (simp add: calculateOffensivePower_def calculateDefensivePower_def)

theorem zero_games_power_is_50_witness:
  "gamesPlayed winless_preseason = Fin 0 \<and>
   calculateOffensivePower (Some winless_preseason) = Fin 50 \<and>
   calculateDefensivePower (Some winless_preseason) = Fin 50"
proof -
  have g: "gamesPlayed winless_preseason = Fin 0"
    by (simp add: winless_preseason_def)
  from zero_games_power_is_50 [OF g] g show ?thesis by simp
qed

section \<open>Injury impact\<close>

lemma injuryLoop_sums:
  "injuryLoop injuries (Fin a, Fin w) =
     (Fin (a + (\<Sum>i\<leftarrow>injuries. spec_impact i * spec_weight i)),
      Fin (w + (\<Sum>i\<leftarrow>injuries. spec_weight i)))"
proof (induction injuries arbitrary: a w)
  case Nil
  show ?case by simp
next
  case (Cons i rest)
  show ?case
    by (simp add: Cons.IH spec_impact_def spec_weight_def Let_def add.assoc)
qed

lemma spec_weight_pos: "0 < spec_weight i"
  by (simp add: spec_weight_def)

lemma sum_weight_pos: "injuries \<noteq> [] \<Longrightarrow> 0 < (\<Sum>i\<leftarrow>injuries. spec_weight i)"
proof (induction injuries)
  case Nil
  then show ?case by simp
next
  case (Cons i rest)
  have "0 \<le> (\<Sum>i\<leftarrow>rest. spec_weight i)"
    by (rule sum_list_nonneg) (auto simp: less_imp_le [OF spec_weight_pos])
  with spec_weight_pos [of i] show ?case by simp
qed

text \<open>
  C4, as stated: the score is the weighted average itself. The code rounds it: a
  questionable quarterback (weight 3, impact 50) and a healthy kicker (weight 1, impact
  100) average to 62.5, and the score is 63.
\<close>

theorem injury_impact_is_rounded_counterexample:
  "calculateInjuryImpact questionable_QB_and_healthy_K = Fin 63 \<and>
   spec_weightedAverage questionable_QB_and_healthy_K = 125 / 2 \<and>
   calculateInjuryImpact questionable_QB_and_healthy_K
     \<noteq> Fin (spec_weightedAverage questionable_QB_and_healthy_K)"
  by (simp add: calculateInjuryImpact_def questionable_QB_and_healthy_K_def Let_def
      spec_weightedAverage_def spec_impact_def spec_weight_def)

lemma calculateInjuryImpact_eq:
  "calculateInjuryImpact xs =
     (if xs = [] then Fin 100 else Fin (of_int \<lfloor>spec_weightedAverage xs + 1 / 2\<rfloor>))"
proof (cases "xs = []")
  case True
  then show ?thesis by (simp add: calculateInjuryImpact_def)
next
  case False
  have loop: "injuryLoop xs (Fin 0, Fin 0) =
     (Fin (\<Sum>i\<leftarrow>xs. spec_impact i * spec_weight i), Fin (\<Sum>i\<leftarrow>xs. spec_weight i))"
    using injuryLoop_sums [of xs 0 0] by simp
  from False sum_weight_pos [OF False] show ?thesis
    by (simp add: calculateInjuryImpact_def loop spec_weightedAverage_def)
qed

text \<open>
  C4, amended. The injury-impact score of a non-empty list is the weighted average of the
  specification rounded to the nearest integer, a tie upwards; the empty list scores
  exactly 100 and a single quarterback who is out scores exactly 0.
\<close>

theorem calculateInjuryImpact_rounded_average:
  "calculateInjuryImpact injuries =
     (if injuries = [] then Fin 100
      else Fin (of_int \<lfloor>spec_weightedAverage injuries + 1 / 2\<rfloor>)) \<and>
   calculateInjuryImpact ([] :: PlayerInjury list) = Fin 100 \<and>
   calculateInjuryImpact [out_QB] = Fin 0"
proof -
  have single: "calculateInjuryImpact [out_QB] = Fin 0"
    by (simp add: calculateInjuryImpact_def out_QB_def Let_def)
  have none: "calculateInjuryImpact ([] :: PlayerInjury list) = Fin 100"
    by (simp add: calculateInjuryImpact_def)
  from calculateInjuryImpact_eq [of injuries] none single
  show ?thesis by simp
qed

theorem calculateInjuryImpact_rounded_average_witness:
  "calculateInjuryImpact questionable_QB_and_healthy_K = Fin 63"
  using calculateInjuryImpact_rounded_average [of questionable_QB_and_healthy_K]
  by (simp add: questionable_QB_and_healthy_K_def spec_weightedAverage_def spec_impact_def
      spec_weight_def)

section \<open>Weather impact is clamped\<close>

lemma getWeatherImpact_bonuses:
  "getWeatherImpact w =
     Resolved (Fin (max 0 (min 100
       (50 + temperatureBonus (temperature w) + windBonus (windSpeed w) +
        precipitationBonus (precipitation w) + visibilityBonus (visibility w) +
        conditionsBonus (conditions w)))))"
proof -
  define S1 where "S1 = (\<lambda>impact :: number.
     (if 50 \<le> temperature w \<and> temperature w \<le> 70 then impact + 20
      else if 40 \<le> temperature w \<and> temperature w \<le> 80 then impact + 10
      else if temperature w < 20 \<or> 90 < temperature w then impact - 30
      else if temperature w < 30 \<or> 85 < temperature w then impact - 15
      else impact))"
  define S2 where "S2 = (\<lambda>impact :: number.
     (if windSpeed w < 10 then impact + 15
      else if windSpeed w < 20 then impact + 5
      else if 30 < windSpeed w then impact - 25
      else if 20 < windSpeed w then impact - 10
      else impact))"
  define S3 where "S3 = (\<lambda>impact :: number.
     (if strict_eq (precipitation w) 0 then impact + 15
      else if precipitation w < 0.1 then impact + 5
      else if 0.5 < precipitation w then impact - 20
      else if 0.1 < precipitation w then impact - 10
      else impact))"
  define S4 where "S4 = (\<lambda>impact :: number.
     (if 10 \<le> visibility w then impact + 10
      else if visibility w < 5 then impact - 15
      else impact))"
  define S5 where "S5 = (\<lambda>impact :: number.
     (if conditions w \<in> set [''Thunderstorm'', ''Snow'', ''Sleet'', ''Hail'']
        then impact - 25
      else if conditions w \<in> set [''Rain'', ''Drizzle'', ''Mist'', ''Fog'']
        then impact - 10
      else if conditions w = ''Clear'' then impact + 10
      else impact))"
  have stages: "getWeatherImpact w =
      Resolved (Math_max 0 (Math_min 100 (S5 (S4 (S3 (S2 (S1 50)))))))"
    unfolding getWeatherImpact_def S1_def S2_def S3_def S4_def S5_def Let_def
    by (rule refl)
  have s1: "S1 (Fin x) = Fin (x + temperatureBonus (temperature w))" for x
    by (simp add: S1_def temperatureBonus_def)
  have s2: "S2 (Fin x) = Fin (x + windBonus (windSpeed w))" for x
    by (simp add: S2_def windBonus_def)
  have s3: "S3 (Fin x) = Fin (x + precipitationBonus (precipitation w))" for x
    by (simp add: S3_def precipitationBonus_def)
  have s4: "S4 (Fin x) = Fin (x + visibilityBonus (visibility w))" for x
    by (simp add: S4_def visibilityBonus_def)
  have s5: "S5 (Fin x) = Fin (x + conditionsBonus (conditions w))" for x
    by (simp add: S5_def conditionsBonus_def)
  have clamp: "Math_max (Fin 0) (Math_min (Fin 100) (Fin x)) = Fin (max 0 (min 100 x))" for x
    by (simp add: max_def min_def)
  show ?thesis
    by (simp only: stages numeral_number zero_number_Fin s1 s2 s3 s4 s5 clamp)
qed

text \<open>
  C6. For every weather reading the weather-impact score is the base 50 plus the five
  bonuses or penalties (temperature, wind, precipitation, visibility, condition label),
  clamped into the interval from 0 to 100: it is a finite number, never negative and never
  above 100. Extreme readings are covered: a field may be any number, NaN included.
\<close>

theorem getWeatherImpact_clamped:
  "\<exists>score.
     getWeatherImpact w = Resolved (Fin score) \<and>
     score = max 0 (min 100
       (50 + temperatureBonus (temperature w) + windBonus (windSpeed w) +
        precipitationBonus (precipitation w) + visibilityBonus (visibility w) +
        conditionsBonus (conditions w))) \<and>
     0 \<le> score \<and> score \<le> 100"
  by (simp add: getWeatherImpact_bonuses)

theorem getWeatherImpact_clamped_witness:
  "temperature blizzard = Fin (- 40) \<and> windSpeed blizzard = Fin 100 \<and>
   getWeatherImpact blizzard = Resolved (Fin 0) \<and>
   getWeatherImpact clear_day = Resolved (Fin 100)"
  using getWeatherImpact_clamped [of blizzard] getWeatherImpact_clamped [of clear_day]
  by (simp add: blizzard_def clear_day_def temperatureBonus_def windBonus_def
      precipitationBonus_def visibilityBonus_def conditionsBonus_def)

section \<open>Win probabilities and their sum\<close>

text \<open>
  When both adjusted scores are finite and do not cancel, the two probabilities are as the
  specification gives them and sum to 100.
\<close>

lemma calculateWinProbabilities_finite:
  assumes "awayAdjusted a = Fin x" and "homeAdjusted h = Fin y" and "x + y \<noteq> 0"
    and "isFinite (overall a)" and "isFinite (restAdvantage a)" and "isFinite (momentum a)"
    and "isFinite (overall h)" and "isFinite (homeFieldAdvantage h)"
    and "isFinite (restAdvantage h)" and "isFinite (momentum h)"
  shows "awayWinProbability (calculateWinProbabilities a h ov)
           = Math_round ((awayAdjusted a / (awayAdjusted a + homeAdjusted h)) * 100) \<and>
         homeWinProbability (calculateWinProbabilities a h ov)
           = 100 - awayWinProbability (calculateWinProbabilities a h ov) \<and>
         awayWinProbability (calculateWinProbabilities a h ov)
           + homeWinProbability (calculateWinProbabilities a h ov) = Fin 100"
proof -
  obtain oa ra ma oh hf rh mh where f:
    "overall a = Fin oa" "restAdvantage a = Fin ra" "momentum a = Fin ma"
    "overall h = Fin oh" "homeFieldAdvantage h = Fin hf" "restAdvantage h = Fin rh"
    "momentum h = Fin mh"
    using assms(4-10) by (metis isFinite.elims(2))
  have x: "x = oa + ra + (ma - 50) * (1 / 10)"
    using assms(1) by (simp add: awayAdjusted_def f)
  have y: "y = oh + hf + rh + (mh - 50) * (1 / 10)"
    using assms(2) by (simp add: homeAdjusted_def f)
  have total: "oa + ra + (ma - 50) * (1 / 10) + (oh + hf + rh + (mh - 50) * (1 / 10)) \<noteq> 0"
    using assms(3) by (simp add: x y)
  have code: "calculateWinProbabilities a h ov =
      \<lparr> awayWinProbability = Math_round ((Fin x / (Fin x + Fin y)) * 100),
        homeWinProbability = 100 - Math_round ((Fin x / (Fin x + Fin y)) * 100) \<rparr>"
    unfolding calculateWinProbabilities_def Let_def f x y by simp
  have spec: "awayAdjusted a = Fin x" "homeAdjusted h = Fin y"
    by (rule assms(1), rule assms(2))
  from assms(3) show ?thesis
    unfolding code spec by simp
qed

text \<open>
  With a weather reading at hand the field \<open>weatherImpact\<close> is a promise, so the overall
  score of a team is NaN whatever its statistics and injuries are, and both probabilities
  of the game are NaN.
\<close>

lemma overall_NaN_with_weather:
  "overall (calculateTeamMetrics stats injuries (Some w) isHomeTeam) = NaN"
  by (simp add: calculateTeamMetrics_def calculateWeatherImpact_def Let_def)

lemma probabilities_NaN_with_weather:
  "calculateWinProbabilities
     (calculateTeamMetrics awayStats awayInjuries (Some w) False)
     (calculateTeamMetrics homeStats homeInjuries (Some w') True) overallMetrics
   = \<lparr> awayWinProbability = NaN, homeWinProbability = NaN \<rparr>"
  by (simp add: calculateWinProbabilities_def Let_def overall_NaN_with_weather)

lemma predictGame_NaN_with_weather:
  assumes "find (\<lambda>t. team_id t = awayTeamId game) teams = Some awayTeam"
    and "find (\<lambda>t. team_id t = homeTeamId game) teams = Some homeTeam"
    and "getGameWeather env game (team_abbreviation homeTeam) = Some w"
  shows "\<exists>p. predictGame env game teamStats injuries teams = Inr p \<and>
           awayWinProbability p = NaN \<and> homeWinProbability p = NaN \<and>
           confidence p = Low \<and> recommendation p = NoPick"
  using assms
  by (simp add: predictGame_def Let_def probabilities_NaN_with_weather
      determineConfidence_def determineRecommendation_def)

lemma sample_weather:
  "getGameWeather sample_env (game_of ''g1'' ''2'' ''1'') ''GB''
     = Some (weatherRecord sample_env (forecast_at 1725996400 62))"
  by (simp add: getGameWeather_def getForecast_def stadiumCoordinates_def sample_env_def
      sample_forecasts_def forecast_at_def game_of_def Let_def)

text \<open>
  C1. The two win probabilities of a prediction should sum to exactly 100, the away one
  being \<open>round (awayAdjusted / (awayAdjusted + homeAdjusted) * 100)\<close> and the home one its
  complement. That holds when both adjusted scores are finite and do not cancel (the lemma
  \<open>calculateWinProbabilities_finite\<close>); the code misses the other cases. The prediction
  for a game played in Green Bay, for which the provider has a forecast, has NaN for both
  probabilities; and for two metrics records whose adjusted scores are \<open>-2\<close> and \<open>2\<close> the
  probabilities are the two infinities. In neither case is the sum 100.
\<close>

theorem win_probabilities_not_100:
  "(case predictGame sample_env (game_of ''g1'' ''2'' ''1'') ([] :: TeamStats list)
          ([] :: PlayerInjury list) sample_teams of
      Inr p \<Rightarrow>
        awayWinProbability p = NaN \<and> homeWinProbability p = NaN \<and>
        \<not> strict_eq (awayWinProbability p + homeWinProbability p) 100
    | Inl e \<Rightarrow> False) \<and>
   (let p = calculateWinProbabilities cancelling_away cancelling_home
              (calculateOverallMetrics cancelling_away cancelling_home)
    in awayAdjusted cancelling_away = Fin (- 2) \<and> homeAdjusted cancelling_home = Fin 2 \<and>
       awayWinProbability p = NegInf \<and> homeWinProbability p = PosInf \<and>
       \<not> strict_eq (awayWinProbability p + homeWinProbability p) 100)"
proof -
  have a: "find (\<lambda>t. team_id t = awayTeamId (game_of ''g1'' ''2'' ''1'')) sample_teams
      = Some \<lparr> team_id = ''2'', team_name = ''Bears'', team_abbreviation = ''CHI'' \<rparr>"
    by (simp add: sample_teams_def game_of_def)
  have h: "find (\<lambda>t. team_id t = homeTeamId (game_of ''g1'' ''2'' ''1'')) sample_teams
      = Some \<lparr> team_id = ''1'', team_name = ''Packers'', team_abbreviation = ''GB'' \<rparr>"
    by (simp add: sample_teams_def game_of_def)
  have w: "getGameWeather sample_env (game_of ''g1'' ''2'' ''1'')
      (team_abbreviation
         \<lparr> team_id = ''1'', team_name = ''Packers'', team_abbreviation = ''GB'' \<rparr>)
      = Some (weatherRecord sample_env (forecast_at 1725996400 62))"
    using sample_weather by simp
  from predictGame_NaN_with_weather
         [OF a h w, where teamStats = "[] :: TeamStats list"
            and injuries = "[] :: PlayerInjury list"]
  obtain p where "predictGame sample_env (game_of ''g1'' ''2'' ''1'') ([] :: TeamStats list)
      ([] :: PlayerInjury list) sample_teams = Inr p"
    "awayWinProbability p = NaN" "homeWinProbability p = NaN"
    by auto
  then have generated: "(case predictGame sample_env (game_of ''g1'' ''2'' ''1'')
          ([] :: TeamStats list) ([] :: PlayerInjury list) sample_teams of
      Inr p \<Rightarrow>
        awayWinProbability p = NaN \<and> homeWinProbability p = NaN \<and>
        \<not> strict_eq (awayWinProbability p + homeWinProbability p) 100
    | Inl e \<Rightarrow> False)"
    by simp
  have cancelling: "(let p = calculateWinProbabilities cancelling_away cancelling_home
              (calculateOverallMetrics cancelling_away cancelling_home)
    in awayAdjusted cancelling_away = Fin (- 2) \<and> homeAdjusted cancelling_home = Fin 2 \<and>
       awayWinProbability p = NegInf \<and> homeWinProbability p = PosInf \<and>
       \<not> strict_eq (awayWinProbability p + homeWinProbability p) 100)"
    by (simp add: Let_def calculateWinProbabilities_def cancelling_away_def
        cancelling_home_def awayAdjusted_def homeAdjusted_def)
  from generated cancelling show ?thesis by simp
qed

section \<open>Forecast selection\<close>

lemma number_less_trans: "(a :: number) < b \<Longrightarrow> b < c \<Longrightarrow> a < c"
  by (cases a; cases b; cases c) simp_all

lemma number_less_le_trans: "(a :: number) < b \<Longrightarrow> b \<le> c \<Longrightarrow> a < c"
  by (cases a; cases b; cases c) simp_all

lemma number_not_less: "isFinite a \<Longrightarrow> b = PosInf \<or> isFinite b \<Longrightarrow> \<not> a < b \<Longrightarrow> b \<le> a"
  by (cases a; cases b) auto

text \<open>
  The loop either keeps its accumulator, when no entry is closer than \<open>smallestDiff\<close>, or
  ends at an entry that is strictly closer than every entry before it and at least as
  close as every entry after it.
\<close>

lemma closestLoop_spec:
  assumes "\<forall>f\<in>set fs. isFinite (timeDiff g f)" and "d = PosInf \<or> isFinite d"
  shows "\<exists>r d'. closestLoop g fs (c, d) = (r, d') \<and>
           (((\<forall>f\<in>set fs. \<not> timeDiff g f < d) \<and> r = c \<and> d' = d) \<or>
            (\<exists>pre f post. fs = pre @ f # post \<and> r = Some f \<and> d' = timeDiff g f \<and>
               timeDiff g f < d \<and>
               (\<forall>p\<in>set pre. timeDiff g f < timeDiff g p) \<and>
               (\<forall>q\<in>set post. timeDiff g f \<le> timeDiff g q)))"
  using assms
proof (induction fs arbitrary: c d)
  case Nil
  then show ?case by simp
next
  case (Cons x rest)
  have finx: "isFinite (timeDiff g x)" and finrest: "\<forall>f\<in>set rest. isFinite (timeDiff g f)"
    using Cons.prems(1) by simp_all
  show ?case
  proof (cases "timeDiff g x < d")
    case True
    have step: "closestLoop g (x # rest) (c, d) = closestLoop g rest (Some x, timeDiff g x)"
      using True by (simp add: timeDiff_def Let_def)
    from Cons.IH [OF finrest, of "timeDiff g x" "Some x"] finx
    obtain r d' where res: "closestLoop g rest (Some x, timeDiff g x) = (r, d')"
      and alt: "((\<forall>f\<in>set rest. \<not> timeDiff g f < timeDiff g x) \<and> r = Some x \<and>
                 d' = timeDiff g x) \<or>
            (\<exists>pre f post. rest = pre @ f # post \<and> r = Some f \<and> d' = timeDiff g f \<and>
               timeDiff g f < timeDiff g x \<and>
               (\<forall>p\<in>set pre. timeDiff g f < timeDiff g p) \<and>
               (\<forall>q\<in>set post. timeDiff g f \<le> timeDiff g q))"
      by blast
    from alt show ?thesis
    proof
      assume a: "(\<forall>f\<in>set rest. \<not> timeDiff g f < timeDiff g x) \<and> r = Some x \<and>
                 d' = timeDiff g x"
      have "\<forall>q\<in>set rest. timeDiff g x \<le> timeDiff g q"
        using a finx finrest number_not_less by blast
      then have "x # rest = [] @ x # rest \<and> r = Some x \<and> d' = timeDiff g x \<and>
          timeDiff g x < d \<and> (\<forall>p\<in>set []. timeDiff g x < timeDiff g p) \<and>
          (\<forall>q\<in>set rest. timeDiff g x \<le> timeDiff g q)"
        using a True by simp
      then show ?thesis unfolding step res by blast
    next
      assume "\<exists>pre f post. rest = pre @ f # post \<and> r = Some f \<and> d' = timeDiff g f \<and>
               timeDiff g f < timeDiff g x \<and>
               (\<forall>p\<in>set pre. timeDiff g f < timeDiff g p) \<and>
               (\<forall>q\<in>set post. timeDiff g f \<le> timeDiff g q)"
      then obtain pre f post where b: "rest = pre @ f # post" "r = Some f" "d' = timeDiff g f"
        "timeDiff g f < timeDiff g x" "\<forall>p\<in>set pre. timeDiff g f < timeDiff g p"
        "\<forall>q\<in>set post. timeDiff g f \<le> timeDiff g q"
        by blast
      have "x # rest = (x # pre) @ f # post \<and> r = Some f \<and> d' = timeDiff g f \<and>
          timeDiff g f < d \<and> (\<forall>p\<in>set (x # pre). timeDiff g f < timeDiff g p) \<and>
          (\<forall>q\<in>set post. timeDiff g f \<le> timeDiff g q)"
        using b True number_less_trans by auto
      then show ?thesis unfolding step res by blast
    qed
  next
    case False
    have step: "closestLoop g (x # rest) (c, d) = closestLoop g rest (c, d)"
      using False by (simp add: timeDiff_def Let_def)
    have dx: "d \<le> timeDiff g x"
      using number_not_less [OF finx Cons.prems(2) False] .
    from Cons.IH [OF finrest Cons.prems(2), of c]
    obtain r d' where res: "closestLoop g rest (c, d) = (r, d')"
      and alt: "((\<forall>f\<in>set rest. \<not> timeDiff g f < d) \<and> r = c \<and> d' = d) \<or>
            (\<exists>pre f post. rest = pre @ f # post \<and> r = Some f \<and> d' = timeDiff g f \<and>
               timeDiff g f < d \<and>
               (\<forall>p\<in>set pre. timeDiff g f < timeDiff g p) \<and>
               (\<forall>q\<in>set post. timeDiff g f \<le> timeDiff g q))"
      by blast
    from alt show ?thesis
    proof
      assume "(\<forall>f\<in>set rest. \<not> timeDiff g f < d) \<and> r = c \<and> d' = d"
      then have "(\<forall>f\<in>set (x # rest). \<not> timeDiff g f < d) \<and> r = c \<and> d' = d"
        using False by simp
      then show ?thesis unfolding step res by blast
    next
      assume "\<exists>pre f post. rest = pre @ f # post \<and> r = Some f \<and> d' = timeDiff g f \<and>
               timeDiff g f < d \<and>
               (\<forall>p\<in>set pre. timeDiff g f < timeDiff g p) \<and>
               (\<forall>q\<in>set post. timeDiff g f \<le> timeDiff g q)"
      then obtain pre f post where b: "rest = pre @ f # post" "r = Some f" "d' = timeDiff g f"
        "timeDiff g f < d" "\<forall>p\<in>set pre. timeDiff g f < timeDiff g p"
        "\<forall>q\<in>set post. timeDiff g f \<le> timeDiff g q"
        by blast
      have "timeDiff g f < timeDiff g x"
        using number_less_le_trans [OF b(4) dx] .
      then have "x # rest = (x # pre) @ f # post \<and> r = Some f \<and> d' = timeDiff g f \<and>
          timeDiff g f < d \<and> (\<forall>p\<in>set (x # pre). timeDiff g f < timeDiff g p) \<and>
          (\<forall>q\<in>set post. timeDiff g f \<le> timeDiff g q)"
        using b by auto
      then show ?thesis unfolding step res by blast
    qed
  qed
qed

lemma closestLoop_first_minimal:
  assumes fin: "\<forall>f\<in>set fs. isFinite (timeDiff g f)" and ne: "fs \<noteq> []"
  shows "\<exists>pre f post d'. closestLoop g fs (None, PosInf) = (Some f, d') \<and>
           fs = pre @ f # post \<and>
           (\<forall>p\<in>set pre. timeDiff g f < timeDiff g p) \<and>
           (\<forall>q\<in>set post. timeDiff g f \<le> timeDiff g q)"
proof -
  from ne obtain x rest where fs: "fs = x # rest" by (cases fs) auto
  have "isFinite (timeDiff g x)" using fin fs by simp
  then have "timeDiff g x < PosInf" by (cases "timeDiff g x") simp_all
  then have some: "\<not> (\<forall>f\<in>set fs. \<not> timeDiff g f < PosInf)" using fs by auto
  from closestLoop_spec [OF fin, of PosInf None] some show ?thesis by blast
qed

text \<open>
  C7. For a team with known coordinates, a game at most 120 hours ahead and a non-empty
  forecast list whose timestamps and kickoff are valid times, \<^verbatim>\<open>getForecast\<close> sends one
  request and returns the reading built from the entry \<open>f\<close> that is strictly closer to
  kickoff than every entry before it and at least as close as every entry after it: the
  closest entry, and among equally close ones the first in input order. For a game more
  than 120 hours ahead it sends no request and returns \<^verbatim>\<open>null\<close>.
\<close>

theorem getForecast_selects_closest:
  "(map_of stadiumCoordinates abbr = Some c \<and> \<not> 120 < hoursUntilGame env d \<and>
    fetchForecast env c = Inr (Some fs) \<and> fs \<noteq> [] \<and>
    (\<forall>f\<in>set fs. isFinite (timeDiff (parseDate env d) f))
    \<longrightarrow> (\<exists>pre f post.
          fs = pre @ f # post \<and>
          (\<forall>p\<in>set pre. timeDiff (parseDate env d) f < timeDiff (parseDate env d) p) \<and>
          (\<forall>q\<in>set post. timeDiff (parseDate env d) f \<le> timeDiff (parseDate env d) q) \<and>
          getForecast env abbr d = (1, Inr (Some (weatherRecord env f))))) \<and>
   (120 < hoursUntilGame env d \<longrightarrow> getForecast env abbr d = (0, Inr None))"
proof (intro conjI impI)
  assume h: "map_of stadiumCoordinates abbr = Some c \<and> \<not> 120 < hoursUntilGame env d \<and>
    fetchForecast env c = Inr (Some fs) \<and> fs \<noteq> [] \<and>
    (\<forall>f\<in>set fs. isFinite (timeDiff (parseDate env d) f))"
  then have fin: "\<forall>f\<in>set fs. isFinite (timeDiff (parseDate env d) f)" and ne: "fs \<noteq> []"
    by simp_all
  from closestLoop_first_minimal [OF fin ne]
  obtain pre f post d' where
    loop: "closestLoop (parseDate env d) fs (None, PosInf) = (Some f, d')" and
    split: "fs = pre @ f # post" and
    before: "\<forall>p\<in>set pre. timeDiff (parseDate env d) f < timeDiff (parseDate env d) p" and
    after: "\<forall>q\<in>set post. timeDiff (parseDate env d) f \<le> timeDiff (parseDate env d) q"
    by blast
  have "getForecast env abbr d = (1, Inr (Some (weatherRecord env f)))"
    using h loop by (simp add: getForecast_def hoursUntilGame_def Let_def)
  with split before after
  show "\<exists>pre f post.
          fs = pre @ f # post \<and>
          (\<forall>p\<in>set pre. timeDiff (parseDate env d) f < timeDiff (parseDate env d) p) \<and>
          (\<forall>q\<in>set post. timeDiff (parseDate env d) f \<le> timeDiff (parseDate env d) q) \<and>
          getForecast env abbr d = (1, Inr (Some (weatherRecord env f)))"
    by blast
next
  assume "120 < hoursUntilGame env d"
  then show "getForecast env abbr d = (0, Inr None)"
    by (simp add: getForecast_def hoursUntilGame_def Let_def split: option.splits)
qed

lemma map_of_GB: "map_of stadiumCoordinates ''GB'' = Some (Fin 44.5013, Fin (- 88.0622))"
  by (simp add: stadiumCoordinates_def)

theorem getForecast_selects_closest_witness:
  "map_of stadiumCoordinates ''GB'' = Some (Fin 44.5013, Fin (- 88.0622)) \<and>
   \<not> 120 < hoursUntilGame sample_env kickoff \<and>
   fetchForecast sample_env (Fin 44.5013, Fin (- 88.0622)) = Inr (Some sample_forecasts) \<and>
   list_all (\<lambda>f. isFinite (timeDiff (parseDate sample_env kickoff) f)) sample_forecasts \<and>
   timeDiff (parseDate sample_env kickoff) (forecast_at 1725996400 62) = Fin 3600000 \<and>
   timeDiff (parseDate sample_env kickoff) (forecast_at 1726003600 63) = Fin 3600000 \<and>
   getForecast sample_env ''GB'' kickoff
     = (1, Inr (Some (weatherRecord sample_env (forecast_at 1725996400 62)))) \<and>
   120 < hoursUntilGame early_env kickoff \<and>
   getForecast early_env ''GB'' kickoff = (0, Inr None)"
  using getForecast_selects_closest
          [of "''GB''" "(Fin 44.5013, Fin (- 88.0622))" sample_env kickoff sample_forecasts]
    getForecast_selects_closest
          [of "''GB''" "(Fin 44.5013, Fin (- 88.0622))" early_env kickoff sample_forecasts]
  by (simp add: map_of_GB getForecast_def hoursUntilGame_def sample_env_def early_env_def
      sample_forecasts_def forecast_at_def timeDiff_def Let_def)

section \<open>A batch of games\<close>

lemma find_None_iff_no: "(find P xs = None) = (\<not> (\<exists>x\<in>set xs. P x))"
  by (induction xs) auto

lemma predictGame_unresolved:
  assumes "\<not> teamsResolved teams game"
  shows "predictGame env game teamStats injuries teams
           = Inl (Error (''Team not found for game '' @ game_id game))"
proof -
  from assms have
    "find (\<lambda>t. team_id t = awayTeamId game) teams = None \<or>
     find (\<lambda>t. team_id t = homeTeamId game) teams = None"
    by (auto simp: teamsResolved_def find_None_iff_no)
  then show ?thesis
    by (auto simp: predictGame_def split: option.splits)
qed

lemma predictGame_resolved:
  assumes "teamsResolved teams game"
  shows "\<exists>p. predictGame env game teamStats injuries teams = Inr p \<and> gameId p = game_id game"
proof -
  from assms obtain awayTeam homeTeam where
    "find (\<lambda>t. team_id t = awayTeamId game) teams = Some awayTeam"
    "find (\<lambda>t. team_id t = homeTeamId game) teams = Some homeTeam"
    using find_None_iff_no [of "\<lambda>t. team_id t = awayTeamId game" teams]
      find_None_iff_no [of "\<lambda>t. team_id t = homeTeamId game" teams]
    by (auto simp: teamsResolved_def)
  then show ?thesis
    by (simp add: predictGame_def Let_def)
qed

lemma predictionsLoop_eq:
  "predictionsLoop env games teamStats injuries teams (ps, lg) =
     (ps @ map (\<lambda>g. projr (predictGame env g teamStats injuries teams))
             (filter (teamsResolved teams) games),
      lg @ map (logLine env teamStats injuries teams) games)"
proof (induction games arbitrary: ps lg)
  case Nil
  show ?case by simp
next
  case (Cons g rest)
  show ?case
  proof (cases "teamsResolved teams g")
    case True
    from predictGame_resolved [OF True, of env teamStats injuries]
    obtain p where p: "predictGame env g teamStats injuries teams = Inr p" by blast
    show ?thesis using True by (simp add: p Cons.IH logLine_def)
  next
    case False
    show ?thesis using False
      by (simp add: predictGame_unresolved [OF False] Cons.IH logLine_def)
  qed
qed

lemma gameId_of_resolved:
  "map (\<lambda>g. gameId (projr (predictGame env g teamStats injuries teams)))
     (filter (teamsResolved teams) games)
   = map game_id (filter (teamsResolved teams) games)"
proof (rule map_cong [OF refl])
  fix g assume "g \<in> set (filter (teamsResolved teams) games)"
  then have "teamsResolved teams g" by simp
  from predictGame_resolved [OF this, of env teamStats injuries]
  show "gameId (projr (predictGame env g teamStats injuries teams)) = game_id g" by auto
qed

text \<open>
  C8. A game fails exactly when one of its team records is missing from the fetched team
  set, with the error \<open>Team not found\<close>, which is logged; every other game yields a
  prediction. The batch returns, in the order of the games, the predictions of all the
  games whose teams are resolved, and logs one line for every game: no failing game ends
  the loop or removes the prediction of another game.
\<close>

theorem generatePredictions_continues_after_failure:
  "fst (generatePredictions env games teamStats injuries teams)
     = map (\<lambda>g. projr (predictGame env g teamStats injuries teams))
         (filter (teamsResolved teams) games) \<and>
   map gameId (fst (generatePredictions env games teamStats injuries teams))
     = map game_id (filter (teamsResolved teams) games) \<and>
   snd (generatePredictions env games teamStats injuries teams)
     = map (logLine env teamStats injuries teams) games \<and>
   (\<forall>g. teamsResolved teams g \<longrightarrow>
      (\<exists>p. predictGame env g teamStats injuries teams = Inr p \<and> gameId p = game_id g)) \<and>
   (\<forall>g. \<not> teamsResolved teams g \<longrightarrow>
      predictGame env g teamStats injuries teams
        = Inl (Error (''Team not found for game '' @ game_id g)) \<and>
      logLine env teamStats injuries teams g
        = ErrorLogged (''Failed to generate prediction for game '' @ game_id g)
            (''Team not found for game '' @ game_id g))"
proof -
  have all: "generatePredictions env games teamStats injuries teams =
     (map (\<lambda>g. projr (predictGame env g teamStats injuries teams))
        (filter (teamsResolved teams) games),
      map (logLine env teamStats injuries teams) games)"
    using predictionsLoop_eq [of env games teamStats injuries teams "[]" "[]"]
    by (simp add: generatePredictions_def)
  have ids: "map gameId (fst (generatePredictions env games teamStats injuries teams))
     = map game_id (filter (teamsResolved teams) games)"
    using gameId_of_resolved [of env teamStats injuries teams games]
    by (simp add: all comp_def)
  have ok: "\<forall>g. teamsResolved teams g \<longrightarrow>
      (\<exists>p. predictGame env g teamStats injuries teams = Inr p \<and> gameId p = game_id g)"
    using predictGame_resolved by blast
  have fail: "\<forall>g. \<not> teamsResolved teams g \<longrightarrow>
      predictGame env g teamStats injuries teams
        = Inl (Error (''Team not found for game '' @ game_id g)) \<and>
      logLine env teamStats injuries teams g
        = ErrorLogged (''Failed to generate prediction for game '' @ game_id g)
            (''Team not found for game '' @ game_id g)"
    by (simp add: predictGame_unresolved logLine_def)
  from all ids ok fail show ?thesis by simp
qed

theorem generatePredictions_continues_after_failure_witness:
  "map (teamsResolved sample_teams) sample_games = [True, False, True] \<and>
   map gameId
     (fst (generatePredictions sample_env sample_games ([] :: TeamStats list)
        ([] :: PlayerInjury list) sample_teams))
     = [''g1'', ''g3''] \<and>
   length
     (snd (generatePredictions sample_env sample_games ([] :: TeamStats list)
        ([] :: PlayerInjury list) sample_teams)) = 3 \<and>
   predictGame sample_env (game_of ''g2'' ''9'' ''1'') ([] :: TeamStats list)
     ([] :: PlayerInjury list) sample_teams
     = Inl (Error ''Team not found for game g2'')"
proof -
  have r: "map (teamsResolved sample_teams) sample_games = [True, False, True]"
    by (simp add: teamsResolved_def sample_teams_def sample_games_def game_of_def)
  then have f: "map game_id (filter (teamsResolved sample_teams) sample_games) = [''g1'', ''g3'']"
    by (simp add: sample_games_def game_of_def)
  have n: "\<not> teamsResolved sample_teams (game_of ''g2'' ''9'' ''1'')"
    using r by (simp add: sample_games_def)
  note T = generatePredictions_continues_after_failure
         [of sample_env sample_games "[] :: TeamStats list" "[] :: PlayerInjury list"
            sample_teams]
  from T have ids: "map gameId
     (fst (generatePredictions sample_env sample_games ([] :: TeamStats list)
        ([] :: PlayerInjury list) sample_teams))
     = map game_id (filter (teamsResolved sample_teams) sample_games)"
    by blast
  from T have lines: "snd (generatePredictions sample_env sample_games ([] :: TeamStats list)
        ([] :: PlayerInjury list) sample_teams)
     = map (logLine sample_env ([] :: TeamStats list) ([] :: PlayerInjury list) sample_teams)
         sample_games"
    by blast
  from T n have failing: "predictGame sample_env (game_of ''g2'' ''9'' ''1'')
     ([] :: TeamStats list) ([] :: PlayerInjury list) sample_teams
     = Inl (Error (''Team not found for game '' @ game_id (game_of ''g2'' ''9'' ''1'')))"
    by blast
  have three: "length sample_games = 3" by (simp add: sample_games_def)
  from r ids f lines three failing show ?thesis by (simp add: game_of_def)
qed

section \<open>Request scheduler: the invariant\<close>

lemma rateLimit_pos: "0 < rateLimit p"
  by (cases p) simp_all

lemma spaced_tl: "spaced (w # ws) \<Longrightarrow> \<forall>b\<in>set ws. b + 60000 \<le> w"
proof (induction ws arbitrary: w)
  case Nil
  then show ?case by simp
next
  case (Cons w' ws)
  then have "w' + 60000 \<le> w" and "spaced (w' # ws)" by simp_all
  with Cons.IH [of w'] show ?case by fastforce
qed

lemmas history_defs =
  startsInWindow_def startTimes_def countsAtStart_def startedUnits_def inWindow_def

lemma window_invD:
  assumes "window_inv p s"
  shows "windows s \<noteq> []" and "resetTime s = hd (windows s) + 60000" and "spaced (windows s)"
    and "hd (windows s) \<le> clock s" and "0 \<le> requestCount s"
    and "requestCount s \<le> rateLimit p"
    and "requestCount s = startsInWindow (hd (windows s)) s"
    and "\<forall>t\<in>set (startTimes s). t \<le> clock s \<and> t < resetTime s"
    and "\<forall>n\<in>set (countsAtStart s). 1 \<le> n \<and> n \<le> rateLimit p"
    and "\<forall>b\<in>set (windows s). startsInWindow b s \<le> rateLimit p"
    and "startedUnits s @ rateLimitQueue s = submitted s"
    and "sorted (startTimes s)"
  using assms unfolding window_inv_def by blast+

lemma window_invI:
  assumes "windows s \<noteq> []" and "resetTime s = hd (windows s) + 60000" and "spaced (windows s)"
    and "hd (windows s) \<le> clock s" and "0 \<le> requestCount s"
    and "requestCount s \<le> rateLimit p"
    and "requestCount s = startsInWindow (hd (windows s)) s"
    and "\<forall>t\<in>set (startTimes s). t \<le> clock s \<and> t < resetTime s"
    and "\<forall>n\<in>set (countsAtStart s). 1 \<le> n \<and> n \<le> rateLimit p"
    and "\<forall>b\<in>set (windows s). startsInWindow b s \<le> rateLimit p"
    and "startedUnits s @ rateLimitQueue s = submitted s"
    and "sorted (startTimes s)"
  shows "window_inv p s"
  unfolding window_inv_def using assms by blast

text \<open>The window invariant reads the history, the counter, the window and the clock only.\<close>

lemma window_inv_cong:
  assumes "window_inv p s"
    and "windows s' = windows s" and "resetTime s' = resetTime s" and "clock s' = clock s"
    and "requestCount s' = requestCount s" and "started s' = started s"
    and "startedUnits s' @ rateLimitQueue s' = submitted s'"
  shows "window_inv p s'"
proof (rule window_invI)
  note D = window_invD [OF assms(1)]
  show "\<forall>t\<in>set (startTimes s'). t \<le> clock s' \<and> t < resetTime s'"
    using D(8) assms(3,4,6) by (simp add: startTimes_def)
  show "\<forall>n\<in>set (countsAtStart s'). 1 \<le> n \<and> n \<le> rateLimit p"
    using D(9) assms(6) by (simp add: countsAtStart_def)
  show "\<forall>b\<in>set (windows s'). startsInWindow b s' \<le> rateLimit p"
    using D(10) assms(2,6) by (simp add: startsInWindow_def)
  show "requestCount s' = startsInWindow (hd (windows s')) s'"
    using D(7) assms(2,5,6) by (simp add: startsInWindow_def)
  show "sorted (startTimes s')"
    using D(12) assms(6) by (simp add: startTimes_def)
  show "startedUnits s' @ rateLimitQueue s' = submitted s'"
    by (rule assms(7))
qed (use window_invD [OF assms(1)] assms(2-5) in simp_all)

lemma window_inv_clock:
  assumes inv: "window_inv p s" and t: "clock s \<le> t"
  shows "window_inv p (s\<lparr> clock := t \<rparr>)"
proof (rule window_invI)
  note D = window_invD [OF inv]
  show "\<forall>t'\<in>set (startTimes (s\<lparr> clock := t \<rparr>)).
          t' \<le> clock (s\<lparr> clock := t \<rparr>) \<and> t' < resetTime (s\<lparr> clock := t \<rparr>)"
    using D(8) t by (fastforce simp: startTimes_def)
  show "hd (windows (s\<lparr> clock := t \<rparr>)) \<le> clock (s\<lparr> clock := t \<rparr>)"
    using D(4) t by simp
qed (use window_invD [OF inv] in \<open>simp_all add: history_defs\<close>)

lemma window_inv_submit:
  assumes "window_inv p s"
  shows "window_inv p (s\<lparr> rateLimitQueue := rateLimitQueue s @ [u],
                           submitted := submitted s @ [u] \<rparr>)"
  using assms window_invD(11) [OF assms]
  by (intro window_inv_cong [OF assms]) (simp_all add: startedUnits_def)

lemma window_inv_flag:
  assumes "window_inv p s"
  shows "window_inv p (s\<lparr> isProcessingQueue := b \<rparr>)"
  using window_invD(11) [OF assms]
  by (intro window_inv_cong [OF assms]) (simp_all add: startedUnits_def)

lemma window_inv_drains:
  assumes "window_inv p s"
  shows "window_inv p (s\<lparr> drains := ds \<rparr>)"
  using window_invD(11) [OF assms]
  by (intro window_inv_cong [OF assms]) (simp_all add: startedUnits_def)

lemma drain_invD:
  assumes "drain_inv s"
  shows "length (drains s) \<le> 1" and "isProcessingQueue s \<longleftrightarrow> drains s \<noteq> []"
    and "AwaitRateLimit due \<in> set (drains s) \<Longrightarrow> resetTime s \<le> due"
  using assms unfolding drain_inv_def by (blast, blast, fastforce)

lemma drain_invI:
  assumes "length (drains s) \<le> 1" and "isProcessingQueue s \<longleftrightarrow> drains s \<noteq> []"
    and "\<And>due. AwaitRateLimit due \<in> set (drains s) \<Longrightarrow> resetTime s \<le> due"
  shows "drain_inv s"
  unfolding drain_inv_def using assms by (auto split: suspended.splits)

text \<open>No start lies in a window that begins at or after \<open>resetTime\<close>.\<close>

lemma no_start_after_reset:
  assumes "\<forall>t'\<in>set (startTimes s). t' \<le> clock s \<and> t' < resetTime s" and "resetTime s \<le> t"
  shows "filter (inWindow t) (started s) = []"
proof -
  have "\<not> inWindow t x" if "x \<in> set (started s)" for x
  proof -
    from that have "fst (snd x) \<in> set (startTimes s)" by (simp add: startTimes_def)
    with assms have "fst (snd x) < t" by fastforce
    then show ?thesis by (cases x) (simp add: inWindow_def)
  qed
  then show ?thesis by (simp add: filter_empty_conv)
qed

lemma reset_window:
  assumes inv: "window_inv p s" and clk: "clock s = t" and due: "resetTime s \<le> t"
  shows "window_inv p (s\<lparr> requestCount := 0, resetTime := t + 60000,
                           windows := t # windows s \<rparr>)"
proof -
  let ?s = "s\<lparr> requestCount := 0, resetTime := t + 60000, windows := t # windows s \<rparr>"
  note D = window_invD [OF inv]
  note w = D(1,2,3) and starts = D(8) and counts = D(9) and old = D(10) and fifo = D(11)
    and sorted = D(12)
  have none: "filter (inWindow t) (started s) = []"
    using no_start_after_reset [OF starts due] .
  have sp: "spaced (t # windows s)"
    using w due by (cases "windows s") simp_all
  have zero: "startsInWindow t ?s = 0"
    using none by (simp add: startsInWindow_def)
  have same: "startsInWindow b ?s = startsInWindow b s" for b
    by (simp add: startsInWindow_def)
  have "\<forall>t'\<in>set (startTimes ?s). t' \<le> clock ?s \<and> t' < resetTime ?s"
    using starts due by (fastforce simp: startTimes_def)
  moreover have "\<forall>b\<in>set (windows ?s). startsInWindow b ?s \<le> rateLimit p"
    using old zero same rateLimit_pos [of p] by auto
  moreover have "\<forall>n\<in>set (countsAtStart ?s). 1 \<le> n \<and> n \<le> rateLimit p"
    using counts by (simp add: countsAtStart_def)
  moreover have "startedUnits ?s @ rateLimitQueue ?s = submitted ?s"
    using fifo by (simp add: startedUnits_def)
  moreover have "sorted (startTimes ?s)"
    using sorted by (simp add: startTimes_def)
  ultimately show ?thesis
    using sp zero clk rateLimit_pos [of p] by (intro window_invI) simp_all
qed

lemma startRequest_window:
  assumes inv: "window_inv p s" and clk: "clock s = t" and before: "t < resetTime s"
    and room: "requestCount s < rateLimit p"
  shows "window_inv p (fst (startRequest p t s))"
proof (cases "rateLimitQueue s")
  case Nil
  then show ?thesis
    using window_inv_flag [OF inv] by (simp add: startRequest_def)
next
  case (Cons u rest)
  let ?x = "(u, t, requestCount s + 1)"
  let ?s = "s\<lparr> rateLimitQueue := rest, requestCount := requestCount s + 1,
                lastRequestTime := t, started := started s @ [?x] \<rparr>"
  have res: "fst (startRequest p t s) = ?s"
    using Cons by (simp add: startRequest_def)
  note D = window_invD [OF inv]
  note w = D(1,2,3) and hd_le = D(4) and c0 = D(5) and cnt = D(7) and starts = D(8)
    and counts = D(9) and old = D(10) and fifo = D(11) and sorted = D(12)
  obtain b bs where ws: "windows s = b # bs" using w(1) by (cases "windows s") auto
  have b: "b \<le> t" "t < b + 60000" using hd_le clk before w(2) ws by simp_all
  have in_b: "inWindow b ?x" using b by (simp add: inWindow_def)
  have out_bs: "\<not> inWindow b' ?x" if "b' \<in> set bs" for b'
  proof -
    from spaced_tl [of b bs] w(3) ws that have "b' + 60000 \<le> b" by simp
    with b show ?thesis by (simp add: inWindow_def)
  qed
  have now_b: "startsInWindow b ?s = startsInWindow b s + 1"
    using in_b by (simp add: startsInWindow_def)
  have now_bs: "startsInWindow b' ?s = startsInWindow b' s" if "b' \<in> set bs" for b'
    using out_bs [OF that] by (simp add: startsInWindow_def)
  have "\<forall>t'\<in>set (startTimes ?s). t' \<le> clock ?s \<and> t' < resetTime ?s"
    using starts clk before by (auto simp: startTimes_def)
  moreover have "\<forall>n\<in>set (countsAtStart ?s). 1 \<le> n \<and> n \<le> rateLimit p"
    using counts c0 room by (auto simp: countsAtStart_def)
  moreover have "\<forall>b'\<in>set (windows ?s). startsInWindow b' ?s \<le> rateLimit p"
    using old ws now_b now_bs cnt room by auto
  moreover have "startedUnits ?s @ rateLimitQueue ?s = submitted ?s"
    using fifo Cons by (simp add: startedUnits_def)
  moreover have "sorted (startTimes ?s)"
    using sorted starts clk by (auto simp: startTimes_def sorted_append)
  moreover have "requestCount ?s = startsInWindow (hd (windows ?s)) ?s"
    using cnt ws now_b by simp
  ultimately show ?thesis
    unfolding res using w hd_le c0 room by (intro window_invI) simp_all
qed

lemma loopTop_window:
  assumes inv: "window_inv p s" and clk: "clock s = t"
  shows "window_inv p (fst (loopTop p t s))"
proof (cases "rateLimitQueue s = []")
  case True
  then show ?thesis using window_inv_flag [OF inv] by (simp add: loopTop_def)
next
  case False
  define s1 where "s1 = (if resetTime s \<le> t
      then s\<lparr> requestCount := 0, resetTime := t + 60000, windows := t # windows s \<rparr>
      else s)"
  have inv1: "window_inv p s1"
    using reset_window [OF inv clk] inv by (simp add: s1_def)
  have clk1: "clock s1 = t" using clk by (simp add: s1_def)
  have before1: "t < resetTime s1" by (simp add: s1_def)
  have top: "loopTop p t s =
      (if rateLimit p \<le> requestCount s1
       then (s1, Some (AwaitRateLimit (t + (resetTime s1 - t))))
       else startRequest p t s1)"
    using False by (simp add: loopTop_def s1_def Let_def)
  show ?thesis
  proof (cases "rateLimit p \<le> requestCount s1")
    case True
    then show ?thesis using inv1 by (simp add: top)
  next
    case False
    then have "requestCount s1 < rateLimit p" by simp
    from startRequest_window [OF inv1 clk1 before1 this] False show ?thesis
      by (simp add: top)
  qed
qed

lemma afterRateLimit_window:
  assumes inv: "window_inv p s" and clk: "clock s = t" and due: "resetTime s \<le> t"
  shows "window_inv p (fst (afterRateLimit p t s))"
proof -
  let ?s = "s\<lparr> requestCount := 0, resetTime := t + 60000, windows := t # windows s \<rparr>"
  have "window_inv p ?s" using reset_window [OF inv clk due] .
  moreover have "clock ?s = t" using clk by simp
  moreover have "t < resetTime ?s" by simp
  moreover have "requestCount ?s < rateLimit p" using rateLimit_pos [of p] by simp
  ultimately show ?thesis
    unfolding afterRateLimit_def by (rule startRequest_window)
qed

lemma startRequest_piece: "piece_ok s (startRequest p t s)"
  by (simp add: piece_ok_def startRequest_def split: list.splits)

lemma loopTop_piece: "piece_ok s (loopTop p t s)"
  by (simp add: piece_ok_def loopTop_def startRequest_def Let_def split: list.splits)

lemma afterRateLimit_piece: "piece_ok s (afterRateLimit p t s)"
  by (simp add: piece_ok_def afterRateLimit_def startRequest_def split: list.splits)

lemma step_inv:
  assumes w: "window_inv p s" and d: "drain_inv s" and st: "step p e s = Some s'"
  shows "window_inv p s' \<and> drain_inv s'"
proof (cases e)
  case (Submit u t)
  with st have t: "clock s \<le> t" and s': "s' = rateLimitRequest p u t (s\<lparr> clock := t \<rparr>)"
    by (simp_all split: if_splits)
  let ?s2 = "s\<lparr> clock := t, rateLimitQueue := rateLimitQueue s @ [u],
                 submitted := submitted s @ [u] \<rparr>"
  have w2: "window_inv p ?s2"
    using window_inv_submit [OF window_inv_clock [OF w t], of u] by simp
  have d2: "drain_inv ?s2"
    using drain_invD [OF d] by (intro drain_invI) simp_all
  have s'2: "s' = processQueue p t ?s2" by (simp add: s' rateLimitRequest_def)
  show ?thesis
  proof (cases "isProcessingQueue s")
    case True
    then have "s' = ?s2" by (simp add: s'2 processQueue_def)
    with w2 d2 show ?thesis by simp
  next
    case False
    let ?s3 = "?s2\<lparr> isProcessingQueue := True \<rparr>"
    obtain s4 r where top: "loopTop p t ?s3 = (s4, r)" by (cases "loopTop p t ?s3")
    have empty: "drains s = []" using drain_invD(2) [OF d] False by simp
    have w4: "window_inv p s4"
      using loopTop_window [OF window_inv_flag [OF w2, of True], of t] by (simp add: top)
    have ok: "piece_ok ?s3 (s4, r)" using loopTop_piece [of ?s3 p t] by (simp add: top)
    show ?thesis
    proof (cases r)
      case None
      then have "s' = s4" using False by (simp add: s'2 processQueue_def top)
      moreover have "drain_inv s4"
        using ok None empty by (intro drain_invI) (simp_all add: piece_ok_def)
      ultimately show ?thesis using w4 by simp
    next
      case (Some a)
      then have eq: "s' = s4\<lparr> drains := drains s4 @ [a] \<rparr>"
        using False by (simp add: s'2 processQueue_def top)
      have "window_inv p (s4\<lparr> drains := drains s4 @ [a] \<rparr>)"
        using window_inv_drains [OF w4] .
      moreover have "drain_inv (s4\<lparr> drains := drains s4 @ [a] \<rparr>)"
        using ok Some empty by (intro drain_invI) (auto simp: piece_ok_def)
      ultimately show ?thesis using eq by simp
    qed
  qed
next
  case (Resume k t)
  with st have t: "clock s \<le> t" and k: "k < length (drains s)"
    and due: "case drains s ! k of AwaitRateLimit due \<Rightarrow> due \<le> t | AwaitRequest request \<Rightarrow> True
              | AwaitDelay due \<Rightarrow> due \<le> t"
    and s': "s' = resume p k t (s\<lparr> clock := t \<rparr>)"
    by (simp_all split: if_splits)
  let ?s1 = "s\<lparr> clock := t \<rparr>"
  from drain_invD(1) [OF d] k obtain a where one: "drains s = [a]" and k0: "k = 0"
    by (cases "drains s") auto
  have busy: "isProcessingQueue s" using drain_invD(2) [OF d] one by simp
  have w1: "window_inv p ?s1" using window_inv_clock [OF w t] .
  define r where "r = (case a of
        AwaitRateLimit due \<Rightarrow> afterRateLimit p t ?s1
      | AwaitRequest request \<Rightarrow> (?s1, Some (AwaitDelay (t + requestDelay p)))
      | AwaitDelay due \<Rightarrow> loopTop p t ?s1)"
  have wr: "window_inv p (fst r)"
  proof (cases a)
    case (AwaitRateLimit due')
    with drain_invD(3) [OF d, of due'] one due k0 have "resetTime ?s1 \<le> t" by simp
    from afterRateLimit_window [OF w1 _ this] AwaitRateLimit show ?thesis by (simp add: r_def)
  next
    case (AwaitRequest u)
    with w1 show ?thesis by (simp add: r_def)
  next
    case (AwaitDelay due')
    from loopTop_window [OF w1, of t] AwaitDelay show ?thesis by (simp add: r_def)
  qed
  have okr: "piece_ok ?s1 r"
    using afterRateLimit_piece [of ?s1 p t] loopTop_piece [of ?s1 p t]
    by (cases a) (simp_all add: r_def piece_ok_def)
  have res: "s' = (case r of
        (s'', None) \<Rightarrow> s''\<lparr> drains := take k (drains s'') @ drop (Suc k) (drains s'') \<rparr>
      | (s'', Some a') \<Rightarrow> s''\<lparr> drains := (drains s'')[k := a'] \<rparr>)"
    using one k0 by (simp add: s' resume_def r_def)
  obtain s2 r2 where r: "r = (s2, r2)" by (cases r)
  show ?thesis
  proof (cases r2)
    case None
    have eq: "s' = s2\<lparr> drains := [] \<rparr>"
      using okr one k0 by (simp add: res r None piece_ok_def)
    have "window_inv p (s2\<lparr> drains := [] \<rparr>)"
      using window_inv_drains [of p s2] wr by (simp add: r)
    moreover have "drain_inv (s2\<lparr> drains := [] \<rparr>)"
      using okr by (intro drain_invI) (simp_all add: r None piece_ok_def)
    ultimately show ?thesis using eq by simp
  next
    case (Some a')
    have eq: "s' = s2\<lparr> drains := [a'] \<rparr>"
      using okr one k0 by (simp add: res r Some piece_ok_def)
    have "window_inv p (s2\<lparr> drains := [a'] \<rparr>)"
      using window_inv_drains [of p s2] wr by (simp add: r)
    moreover have "drain_inv (s2\<lparr> drains := [a'] \<rparr>)"
      using okr busy by (intro drain_invI) (auto simp: r Some piece_ok_def)
    ultimately show ?thesis using eq by simp
  qed
qed

lemma new_scheduler_inv: "window_inv p (new_scheduler t0) \<and> drain_inv (new_scheduler t0)"
  using rateLimit_pos [of p]
  by (simp add: window_inv_def drain_inv_def new_scheduler_def history_defs)

lemma run_inv:
  assumes "window_inv p s" and "drain_inv s" and "run p es s = Some s'"
  shows "window_inv p s' \<and> drain_inv s'"
  using assms
proof (induction es arbitrary: s)
  case Nil
  then show ?case by simp
next
  case (Cons e es)
  from Cons.prems(3) obtain s1 where s1: "step p e s = Some s1" and rest: "run p es s1 = Some s'"
    by (auto split: option.splits)
  from step_inv [OF Cons.prems(1,2) s1] Cons.IH [OF _ _ rest] show ?case by simp
qed

section \<open>Request scheduler: quota and order\<close>

lemma reachable_inv:
  assumes "run p es (new_scheduler t0) = Some s"
  shows "window_inv p s \<and> drain_inv s"
  using new_scheduler_inv [of p t0] run_inv [OF _ _ assms] by blast

text \<open>
  C2, as stated: whenever the current time reaches the end of the window, the counter
  resets to 0 and the end of the window advances by 60 seconds. The code resets in the
  loop of \<^verbatim>\<open>processQueue\<close> only, at an iteration with a unit queued, and sets the end
  of the window to 60 seconds after the time of that iteration. A scheduler constructed at
  time 0 has its first window end at 60000; a single unit submitted at 70000 moves the end
  to 130000, not to 120000. And after a unit submitted at 10 whose request is answered at
  61000, the loop ends at 61200 with an empty queue: the time is past the end of the
  window, the counter is still 1 and the end of the window is still 60000.
\<close>

theorem window_end_not_advanced_by_60s_counterexample:
  "resetTime (new_scheduler 0 :: string scheduler) = 60000 \<and>
   map_option (\<lambda>s. (requestCount s, resetTime s, windows s))
     (run OpenWeather late_submission (new_scheduler 0)) = Some (1, 130000, [70000, 0]) \<and>
   advancedWindowEnd (resetTime (new_scheduler 0 :: string scheduler)) = 120000 \<and>
   map_option resetTime (run OpenWeather late_submission (new_scheduler 0))
     \<noteq> Some (advancedWindowEnd (resetTime (new_scheduler 0 :: string scheduler))) \<and>
   map_option (\<lambda>s. (clock s, requestCount s, resetTime s, rateLimitQueue s, drains s))
     (run OpenWeather slow_request (new_scheduler 0)) = Some (61200, 1, 60000, [], [])"
  by (simp add: late_submission_def slow_request_def new_scheduler_def rateLimitRequest_def
      processQueue_def loopTop_def startRequest_def resume_def advancedWindowEnd_def Let_def)

text \<open>
  C2, amended. In every state a scheduler reaches from its construction, by any sequence of
  submissions and resumptions: the counter is at most the provider's quota, it was at most
  the quota at every start of a unit, and in each of the scheduler's own 60-second windows
  at most quota-many units began execution. The end of the window is 60 seconds after the
  time the newest window began: with a unit queued, an iteration of the loop at a time \<open>t\<close>
  that has reached \<open>resetTime\<close> starts a new window at \<open>t\<close>, sets \<open>resetTime\<close> to
  \<open>t + 60000\<close> and counts from 0 (the unit it then starts is number 1); an iteration that
  finds the counter at the quota starts nothing and suspends on a timer due at
  \<open>resetTime\<close>; and a call suspended there cannot go on before that.
\<close>

theorem quota_per_window:
  assumes "run p es (new_scheduler t0) = Some s"
  shows "requestCount s \<le> rateLimit p \<and>
         (\<forall>n\<in>set (countsAtStart s). n \<le> rateLimit p) \<and>
         (\<forall>b\<in>set (windows s). startsInWindow b s \<le> rateLimit p) \<and>
         resetTime s = hd (windows s) + 60000 \<and>
         (\<forall>q t. rateLimitQueue (q :: 'a scheduler) \<noteq> [] \<and> resetTime q \<le> t \<longrightarrow>
            windows (fst (loopTop p t q)) = t # windows q \<and>
            resetTime (fst (loopTop p t q)) = t + 60000 \<and>
            requestCount (fst (loopTop p t q)) = 1) \<and>
         (\<forall>q t. rateLimitQueue (q :: 'a scheduler) \<noteq> [] \<and> t < resetTime q \<and>
                 rateLimit p \<le> requestCount q \<longrightarrow>
            loopTop p t q = (q, Some (AwaitRateLimit (resetTime q)))) \<and>
         (\<forall>q k t due. k < length (drains (q :: 'a scheduler)) \<and>
                 drains q ! k = AwaitRateLimit due \<and> t < due \<longrightarrow>
            step p (Resume k t) q = None)"
proof -
  from reachable_inv [OF assms] have inv: "window_inv p s" by simp
  note D = window_invD [OF inv]
  have counts: "\<forall>n\<in>set (countsAtStart s). n \<le> rateLimit p"
    using D(9) by blast
  have reset: "\<forall>q t. rateLimitQueue (q :: 'a scheduler) \<noteq> [] \<and> resetTime q \<le> t \<longrightarrow>
            windows (fst (loopTop p t q)) = t # windows q \<and>
            resetTime (fst (loopTop p t q)) = t + 60000 \<and>
            requestCount (fst (loopTop p t q)) = 1"
    using rateLimit_pos [of p]
    by (auto simp: loopTop_def startRequest_def Let_def split: list.splits)
  have wait: "\<forall>q t. rateLimitQueue (q :: 'a scheduler) \<noteq> [] \<and> t < resetTime q \<and>
                 rateLimit p \<le> requestCount q \<longrightarrow>
            loopTop p t q = (q, Some (AwaitRateLimit (resetTime q)))"
    by (simp add: loopTop_def Let_def)
  have held: "\<forall>q k t due. k < length (drains (q :: 'a scheduler)) \<and>
                 drains q ! k = AwaitRateLimit due \<and> t < due \<longrightarrow>
            step p (Resume k t) q = None"
    by simp
  from D(6) counts D(10) D(2) reset wait held show ?thesis by blast
qed

theorem quota_per_window_witness:
  "run OpenWeather burst (new_scheduler 0) \<noteq> None \<and>
   drains (the (run OpenWeather burst (new_scheduler 0))) = [AwaitRateLimit 60000] \<and>
   requestCount (the (run OpenWeather burst (new_scheduler 0))) = 60 \<and>
   rateLimitQueue (the (run OpenWeather burst (new_scheduler 0))) = [60] \<and>
   run OpenWeather (burst @ [Resume 0 59999]) (new_scheduler 0) = None \<and>
   run OpenWeather burst_then_timer (new_scheduler 0) \<noteq> None \<and>
   windows (the (run OpenWeather burst_then_timer (new_scheduler 0))) = [60000, 0] \<and>
   startsInWindow 0 (the (run OpenWeather burst_then_timer (new_scheduler 0))) = 60 \<and>
   startsInWindow 60000 (the (run OpenWeather burst_then_timer (new_scheduler 0))) = 1 \<and>
   requestCount (the (run OpenWeather burst_then_timer (new_scheduler 0))) = 1 \<and>
   rateLimit OpenWeather = 60"
proof -
  have "map_option (\<lambda>s. (drains s, rateLimitQueue s, requestCount s))
          (run OpenWeather burst (new_scheduler 0))
        = Some ([AwaitRateLimit 60000], [60], 60)"
    by code_simp
  then obtain sa where a: "run OpenWeather burst (new_scheduler 0) = Some sa"
    and a1: "drains sa = [AwaitRateLimit 60000]" "rateLimitQueue sa = [60]"
      "requestCount sa = 60"
    by (auto simp: map_option_eq_Some)
  have "map_option
          (\<lambda>s. (windows s, startsInWindow 0 s, startsInWindow 60000 s, requestCount s))
          (run OpenWeather burst_then_timer (new_scheduler 0))
        = Some ([60000, 0], 60, 1, 1)"
    by code_simp
  then obtain sb where b: "run OpenWeather burst_then_timer (new_scheduler 0) = Some sb"
    and b1: "windows sb = [60000, 0]" "startsInWindow 0 sb = 60"
      "startsInWindow 60000 sb = 1" "requestCount sb = 1"
    by (auto simp: map_option_eq_Some)
  have early: "run OpenWeather (burst @ [Resume 0 59999]) (new_scheduler 0) = None"
    by code_simp
  from quota_per_window [OF a] quota_per_window [OF b] a a1 b b1 early
  show ?thesis by simp
qed

text \<open>
  C3. In every state a scheduler reaches, the units started so far, in the order of their
  starts, followed by the units still queued are the units submitted, in the order of
  submission: starts are in submission order, and no unit is skipped, repeated or
  overtaken. Start times never decrease. At most one call of \<^verbatim>\<open>processQueue\<close> is
  suspended in its loop, and the flag is set exactly then; a submission that meets the flag
  set only appends the unit to the queue; and a start takes the unit at the head of the
  queue.
\<close>

theorem starts_in_submission_order:
  assumes "run p es (new_scheduler t0) = Some s"
  shows "startedUnits s @ rateLimitQueue s = submitted s \<and>
         sorted (startTimes s) \<and>
         length (drains s) \<le> 1 \<and>
         (isProcessingQueue s \<longleftrightarrow> drains s \<noteq> []) \<and>
         (\<forall>q u t. isProcessingQueue (q :: 'a scheduler) \<longrightarrow>
            rateLimitRequest p u t q =
              q\<lparr> rateLimitQueue := rateLimitQueue q @ [u], submitted := submitted q @ [u] \<rparr>) \<and>
         (\<forall>q t u rest. rateLimitQueue (q :: 'a scheduler) = u # rest \<longrightarrow>
            snd (startRequest p t q) = Some (AwaitRequest u) \<and>
            rateLimitQueue (fst (startRequest p t q)) = rest \<and>
            startedUnits (fst (startRequest p t q)) = startedUnits q @ [u])"
proof -
  from reachable_inv [OF assms] have inv: "window_inv p s" and d: "drain_inv s" by simp_all
  have enqueue: "\<forall>q u t. isProcessingQueue (q :: 'a scheduler) \<longrightarrow>
            rateLimitRequest p u t q =
              q\<lparr> rateLimitQueue := rateLimitQueue q @ [u], submitted := submitted q @ [u] \<rparr>"
    by (simp add: rateLimitRequest_def processQueue_def)
  have oldest: "\<forall>q t u rest. rateLimitQueue (q :: 'a scheduler) = u # rest \<longrightarrow>
            snd (startRequest p t q) = Some (AwaitRequest u) \<and>
            rateLimitQueue (fst (startRequest p t q)) = rest \<and>
            startedUnits (fst (startRequest p t q)) = startedUnits q @ [u]"
    by (simp add: startRequest_def startedUnits_def)
  from window_invD(11,12) [OF inv] drain_invD(1,2) [OF d] enqueue oldest
  show ?thesis by blast
qed

theorem starts_in_submission_order_witness:
  "run MySportsFeeds sample_run (new_scheduler 0) = Some sample_final \<and>
   submitted sample_final = [''teams'', ''games'', ''stats'', ''late''] \<and>
   startedUnits sample_final = [''teams'', ''games'', ''stats'', ''late''] \<and>
   startTimes sample_final = [10, 600, 1000, 70000] \<and>
   rateLimitQueue sample_final = [] \<and>
   drains sample_final = [AwaitRequest ''late'']"
proof -
  have r: "run MySportsFeeds sample_run (new_scheduler 0) = Some sample_final"
    by (simp add: sample_run_def sample_final_def new_scheduler_def rateLimitRequest_def
        processQueue_def loopTop_def startRequest_def resume_def Let_def)
  from starts_in_submission_order [OF r] r show ?thesis
    by (simp add: sample_final_def startedUnits_def startTimes_def)
qed

end
